theory Spec2Isabelle
  imports Main "HOL-Library.Word"
begin

section \<open>JavaScript strings\<close>

text \<open>
  A JavaScript string is a sequence of UTF-16 code units. The regular expression of
  \<open>sanitizeString\<close> has no \<open>u\<close> flag, so it matches one code unit at a time, and
  \<open>charCodeAt\<close> reads one code unit.
\<close>

type_synonym code_unit = "16 word"
type_synonym js_string = "code_unit list"
type_synonym byte = "8 word"

definition str :: "string \<Rightarrow> js_string" where
  "str s = map of_char s"

text \<open>Number to string, for the non-negative integers that \<open>charCodeAt\<close> returns.\<close>

definition digit :: "nat \<Rightarrow> code_unit" where
  "digit d = of_nat (48 + d)"

fun Number_toString :: "nat \<Rightarrow> js_string" where
  "Number_toString n =
     (if n < 10 then [digit n] else Number_toString (n div 10) @ [digit (n mod 10)])"

declare Number_toString.simps [simp del]

section \<open>The sanitizer\<close>

text \<open>
  \<^verbatim>\<open>
  private sanitizeString(str: string){
      return str.replace(/[^\w. ]/gi, function (c) {
          if(c == ".") return ".";
          return '&#' + c.charCodeAt(0) + ';';
      });
  }
  \<close>
  Without the \<open>u\<close> flag \<open>\w\<close> is \<open>[A-Za-z0-9_]\<close>, and the \<open>i\<close> flag adds nothing
  to it: a code unit of 128 or more never canonicalises to an ASCII one. Code units are
  written by their numbers: 0x61 to 0x7A are the small letters, 0x41 to 0x5A the capitals,
  0x30 to 0x39 the digits, 0x5F is the underscore, 0x2E the full stop and 0x20 the space.
\<close>

definition word_char :: "code_unit \<Rightarrow> bool" where
  "word_char c \<longleftrightarrow>
     (0x61 \<le> c \<and> c \<le> 0x7A) \<or> (0x41 \<le> c \<and> c \<le> 0x5A) \<or> (0x30 \<le> c \<and> c \<le> 0x39) \<or> c = 0x5F"

text \<open>The character class \<open>[^\w. ]\<close> on one code unit.\<close>

definition regex_match :: "code_unit \<Rightarrow> bool" where
  "regex_match c \<longleftrightarrow> \<not> (word_char c \<or> c = 0x2E \<or> c = 0x20)"

text \<open>The replacer function; its argument is the matched code unit.\<close>

definition replacer :: "code_unit \<Rightarrow> js_string" where
  "replacer c =
     (if [c] = str ''.'' then str ''.''
      else str ''&#'' @ Number_toString (unat c) @ str '';'')"

text \<open>A global replace of one-unit matches: every unit is kept or replaced, left to right.\<close>

definition sanitizeString :: "js_string \<Rightarrow> js_string" where
  "sanitizeString s = concat (map (\<lambda>c. if regex_match c then replacer c else [c]) s)"


section \<open>Platform: Buffer\<close>

text \<open>
  The functions of \<open>Buffer\<close> that the class calls: \<open>Buffer.from(bytes)\<close>,
  \<open>Buffer.from(string)\<close> (UTF-8), \<open>Buffer.from(string, 'base64')\<close>,
  \<open>buf.toString('base64')\<close> and \<open>buf.toString()\<close> (UTF-8). A buffer is a list of bytes.
\<close>

subsection \<open>Base64\<close>

definition base64_char :: "nat \<Rightarrow> code_unit" where
  "base64_char i =
     (if i < 26 then of_nat (65 + i)
      else if i < 52 then of_nat (71 + i)
      else if i < 62 then of_nat (i - 4)
      else if i = 62 then 0x2B else 0x2F)"

text \<open>
  \<open>buf.toString('base64')\<close>: three bytes give four characters of the alphabet \<open>A\<close> to \<open>Z\<close>,
  \<open>a\<close> to \<open>z\<close>, \<open>0\<close> to \<open>9\<close>, \<open>+\<close> (0x2B) and \<open>/\<close> (0x2F); the end is padded with
  \<open>=\<close> (0x3D).
\<close>

fun Buffer_toString_base64 :: "byte list \<Rightarrow> js_string" where
  "Buffer_toString_base64 [] = []"
| "Buffer_toString_base64 [a] =
     [base64_char (unat a div 4), base64_char (unat a mod 4 * 16), 0x3D, 0x3D]"
| "Buffer_toString_base64 [a, b] =
     [base64_char (unat a div 4), base64_char (unat a mod 4 * 16 + unat b div 16),
      base64_char (unat b mod 16 * 4), 0x3D]"
| "Buffer_toString_base64 (a # b # c # bs) =
     [base64_char (unat a div 4), base64_char (unat a mod 4 * 16 + unat b div 16),
      base64_char (unat b mod 16 * 4 + unat c div 64), base64_char (unat c mod 64)]
     @ Buffer_toString_base64 bs"

text \<open>
  \<open>Buffer.from(string, 'base64')\<close> never throws. Node's decoder reads every code unit of
  the string by its low byte, so that a unit above \<open>0xFF\<close> counts as the character of
  its low byte (\<open>U+0165\<close> as \<open>e\<close>, \<open>U+013D\<close> as \<open>=\<close>). It reads up to the first \<open>=\<close>,
  accepts the standard and the URL-safe alphabet, skips every other character, and drops
  a last group of one character.
\<close>

definition low_byte :: "code_unit \<Rightarrow> nat" where
  "low_byte c = unat c mod 256"

definition unbase64 :: "code_unit \<Rightarrow> nat option" where
  "unbase64 c =
     (let n = low_byte c in
      if 65 \<le> n \<and> n \<le> 90 then Some (n - 65)
      else if 97 \<le> n \<and> n \<le> 122 then Some (n - 71)
      else if 48 \<le> n \<and> n \<le> 57 then Some (n + 4)
      else if n = 43 \<or> n = 45 then Some 62
      else if n = 47 \<or> n = 95 then Some 63
      else None)"

fun sextets_to_bytes :: "nat list \<Rightarrow> byte list" where
  "sextets_to_bytes (a # b # c # d # rest) =
     [of_nat (a * 4 + b div 16), of_nat (b mod 16 * 16 + c div 4), of_nat (c mod 4 * 64 + d)]
     @ sextets_to_bytes rest"
| "sextets_to_bytes [a, b, c] = [of_nat (a * 4 + b div 16), of_nat (b mod 16 * 16 + c div 4)]"
| "sextets_to_bytes [a, b] = [of_nat (a * 4 + b div 16)]"
| "sextets_to_bytes [a] = []"
| "sextets_to_bytes [] = []"

definition base64_sextets :: "js_string \<Rightarrow> nat list" where
  "base64_sextets s = List.map_filter unbase64 (takeWhile (\<lambda>c. low_byte c \<noteq> 0x3D) s)"

definition Buffer_from_base64 :: "js_string \<Rightarrow> byte list" where
  "Buffer_from_base64 s = sextets_to_bytes (base64_sextets s)"

subsection \<open>UTF-8\<close>

definition is_lead :: "code_unit \<Rightarrow> bool" where
  "is_lead c \<longleftrightarrow> 0xD800 \<le> c \<and> c \<le> 0xDBFF"

definition is_trail :: "code_unit \<Rightarrow> bool" where
  "is_trail c \<longleftrightarrow> 0xDC00 \<le> c \<and> c \<le> 0xDFFF"

definition code_point :: "code_unit \<Rightarrow> code_unit \<Rightarrow> nat" where
  "code_point hi lo = 0x10000 + (unat hi - 0xD800) * 0x400 + (unat lo - 0xDC00)"

definition utf8_bytes :: "nat \<Rightarrow> byte list" where
  "utf8_bytes cp =
     (if cp < 0x80 then [of_nat cp]
      else if cp < 0x800 then [of_nat (0xC0 + cp div 64), of_nat (0x80 + cp mod 64)]
      else if cp < 0x10000 then
        [of_nat (0xE0 + cp div 4096), of_nat (0x80 + cp div 64 mod 64), of_nat (0x80 + cp mod 64)]
      else
        [of_nat (0xF0 + cp div 262144), of_nat (0x80 + cp div 4096 mod 64),
         of_nat (0x80 + cp div 64 mod 64), of_nat (0x80 + cp mod 64)])"

text \<open>
  \<open>Buffer.from(string)\<close>: the UTF-8 bytes of the string. A surrogate pair is one code point;
  a surrogate without its partner is written as U+FFFD.
\<close>

fun Buffer_from_string :: "js_string \<Rightarrow> byte list" where
  "Buffer_from_string [] = []"
| "Buffer_from_string (c # s) =
     (if is_lead c then
        (case s of
           [] \<Rightarrow> utf8_bytes 0xFFFD
         | d # s' \<Rightarrow>
             if is_trail d then utf8_bytes (code_point c d) @ Buffer_from_string s'
             else utf8_bytes 0xFFFD @ Buffer_from_string s)
      else if is_trail c then utf8_bytes 0xFFFD @ Buffer_from_string s
      else utf8_bytes (unat c) @ Buffer_from_string s)"

text \<open>The UTF-16 code units of a code point.\<close>

definition utf16_units :: "nat \<Rightarrow> js_string" where
  "utf16_units cp =
     (if cp < 0x10000 then [of_nat cp]
      else [of_nat (0xD800 + (cp - 0x10000) div 0x400), of_nat (0xDC00 + (cp - 0x10000) mod 0x400)])"

text \<open>
  \<open>buf.toString()\<close>: UTF-8 decoding that never throws. The decoder is either at the start
  of a character or inside one, holding the bits read so far, the number of bytes still
  to come and the range allowed for the next byte. An ill-formed sequence gives U+FFFD,
  and the byte that ended it is read again as the start of a character.
\<close>

datatype utf8_state = Start | Pending nat nat nat nat

definition utf8_first :: "byte \<Rightarrow> js_string \<times> utf8_state" where
  "utf8_first b =
     (let n = unat b in
      if n < 0x80 then ([of_nat n], Start)
      else if 0xC2 \<le> n \<and> n \<le> 0xDF then ([], Pending (n - 0xC0) 1 0x80 0xBF)
      else if 0xE0 \<le> n \<and> n \<le> 0xEF then
        ([], Pending (n - 0xE0) 2 (if n = 0xE0 then 0xA0 else 0x80) (if n = 0xED then 0x9F else 0xBF))
      else if 0xF0 \<le> n \<and> n \<le> 0xF4 then
        ([], Pending (n - 0xF0) 3 (if n = 0xF0 then 0x90 else 0x80) (if n = 0xF4 then 0x8F else 0xBF))
      else ([0xFFFD], Start))"

fun utf8_decode :: "utf8_state \<Rightarrow> byte list \<Rightarrow> js_string" where
  "utf8_decode Start [] = []"
| "utf8_decode (Pending cp need lo hi) [] = [0xFFFD]"
| "utf8_decode Start (b # bs) = (case utf8_first b of (out, st) \<Rightarrow> out @ utf8_decode st bs)"
| "utf8_decode (Pending cp need lo hi) (b # bs) =
     (if lo \<le> unat b \<and> unat b \<le> hi then
        (if need = 1 then utf16_units (cp * 64 + (unat b - 0x80)) @ utf8_decode Start bs
         else utf8_decode (Pending (cp * 64 + (unat b - 0x80)) (need - 1) 0x80 0xBF) bs)
      else 0xFFFD # (case utf8_first b of (out, st) \<Rightarrow> out @ utf8_decode st bs))"

definition Buffer_toString :: "byte list \<Rightarrow> js_string" where
  "Buffer_toString bs = utf8_decode Start bs"


section \<open>Platform: JSON\<close>

text \<open>
  The values that \<open>JSON.parse\<close> returns. A number is kept as its numeral, the text that
  denotes it; an object is the list of its properties in the order of their creation.
\<close>

datatype json =
  JNull | JBool bool | JNumber js_string | JString js_string
  | JArray "json list" | JObject "(js_string \<times> json) list"

subsection \<open>\<open>JSON.stringify\<close>\<close>

text \<open>
  A string is quoted as \<open>QuoteJSONString\<close> does: the short escapes, \<open>\u\<close> and four
  lower-case hexadecimal digits for the other control characters and for a surrogate
  without its partner, every other code unit as it is. 0x22 is the quotation mark and
  0x5C the backslash; 0x62, 0x74, 0x6E, 0x66, 0x72 and 0x75 are the letters \<open>b\<close>, \<open>t\<close>, \<open>n\<close>,
  \<open>f\<close>, \<open>r\<close> and \<open>u\<close>.
\<close>

definition hex_digit :: "nat \<Rightarrow> code_unit" where
  "hex_digit n = (if n < 10 then of_nat (48 + n) else of_nat (87 + n))"

definition unicode_escape :: "code_unit \<Rightarrow> js_string" where
  "unicode_escape c =
     [0x5C, 0x75, hex_digit (unat c div 4096), hex_digit (unat c div 256 mod 16),
      hex_digit (unat c div 16 mod 16), hex_digit (unat c mod 16)]"

definition quote_unit :: "code_unit \<Rightarrow> js_string" where
  "quote_unit c =
     (if c = 0x08 then [0x5C, 0x62]
      else if c = 0x09 then [0x5C, 0x74]
      else if c = 0x0A then [0x5C, 0x6E]
      else if c = 0x0C then [0x5C, 0x66]
      else if c = 0x0D then [0x5C, 0x72]
      else if c = 0x22 then [0x5C, 0x22]
      else if c = 0x5C then [0x5C, 0x5C]
      else if c < 0x20 \<or> is_lead c \<or> is_trail c then unicode_escape c
      else [c])"

fun quote_units :: "js_string \<Rightarrow> js_string" where
  "quote_units [] = []"
| "quote_units (c # s) =
     (if is_lead c then
        (case s of
           [] \<Rightarrow> quote_unit c
         | d # s' \<Rightarrow>
             if is_trail d then c # d # quote_units s' else quote_unit c @ quote_units s)
      else quote_unit c @ quote_units s)"

definition QuoteJSONString :: "js_string \<Rightarrow> js_string" where
  "QuoteJSONString s = 0x22 # quote_units s @ [0x22]"

text \<open>The texts of the elements, with the separator between them.\<close>

fun separate :: "'a list \<Rightarrow> 'a list list \<Rightarrow> 'a list" where
  "separate sep [] = []"
| "separate sep [x] = x"
| "separate sep (x # y # xs) = x @ sep @ separate sep (y # xs)"

text \<open>\<open>JSON.stringify(value)\<close> without indentation.\<close>

fun JSON_stringify :: "json \<Rightarrow> js_string" where
  "JSON_stringify JNull = str ''null''"
| "JSON_stringify (JBool b) = (if b then str ''true'' else str ''false'')"
| "JSON_stringify (JNumber l) = l"
| "JSON_stringify (JString s) = QuoteJSONString s"
| "JSON_stringify (JArray vs) = str ''['' @ separate (str '','') (map JSON_stringify vs) @ str '']''"
| "JSON_stringify (JObject ms) =
     str ''{'' @ separate (str '','')
       (map (\<lambda>m. QuoteJSONString (fst m) @ str '':'' @ JSON_stringify (snd m)) ms) @ str ''}''"

subsection \<open>\<open>JSON.parse\<close>\<close>

text \<open>
  A parser by recursive descent for the JSON grammar. Each function reads a prefix of
  the text and returns what it read and the rest; \<open>None\<close> is the \<open>SyntaxError\<close>. White
  space is the space, the tab, the line feed and the carriage return. 0x5B and 0x5D are
  the brackets, 0x7B and 0x7D the braces, 0x2C the comma, 0x3A the colon, 0x2D the minus,
  0x2B the plus, 0x2E the full stop, 0x2F the slash, 0x65 and 0x45 the letter \<open>e\<close>.
\<close>

definition is_ws :: "code_unit \<Rightarrow> bool" where
  "is_ws c \<longleftrightarrow> c = 0x20 \<or> c = 0x09 \<or> c = 0x0A \<or> c = 0x0D"

definition skip_ws :: "js_string \<Rightarrow> js_string" where
  "skip_ws s = dropWhile is_ws s"

definition hex_value :: "code_unit \<Rightarrow> nat option" where
  "hex_value c =
     (let n = unat c in
      if 48 \<le> n \<and> n \<le> 57 then Some (n - 48)
      else if 97 \<le> n \<and> n \<le> 102 then Some (n - 87)
      else if 65 \<le> n \<and> n \<le> 70 then Some (n - 55)
      else None)"

definition hex4 :: "code_unit \<Rightarrow> code_unit \<Rightarrow> code_unit \<Rightarrow> code_unit \<Rightarrow> code_unit option" where
  "hex4 a b c d =
     (case (hex_value a, hex_value b, hex_value c, hex_value d) of
        (Some x, Some y, Some z, Some u) \<Rightarrow> Some (of_nat (4096 * x + 256 * y + 16 * z + u))
      | _ \<Rightarrow> None)"

definition escaped :: "code_unit \<Rightarrow> code_unit option" where
  "escaped e =
     (if e = 0x22 then Some 0x22
      else if e = 0x5C then Some 0x5C
      else if e = 0x2F then Some 0x2F
      else if e = 0x62 then Some 0x08
      else if e = 0x66 then Some 0x0C
      else if e = 0x6E then Some 0x0A
      else if e = 0x72 then Some 0x0D
      else if e = 0x74 then Some 0x09
      else None)"

text \<open>Puts one more item in front of the items that the rest of a sequence gave.\<close>

definition cons_result :: "'a \<Rightarrow> ('a list \<times> 'b) option \<Rightarrow> ('a list \<times> 'b) option" where
  "cons_result x r = (case r of None \<Rightarrow> None | Some (xs, rest) \<Rightarrow> Some (x # xs, rest))"

text \<open>The characters of a string up to the closing quote, after the opening one.\<close>

fun string_body :: "js_string \<Rightarrow> (js_string \<times> js_string) option" where
  "string_body [] = None"
| "string_body (c # s) =
     (if c = 0x22 then Some ([], s)
      else if c = 0x5C then
        (case s of
           [] \<Rightarrow> None
         | e # s' \<Rightarrow>
             if e = 0x75 then
               (case s' of
                  a # b # c' # d # s'' \<Rightarrow>
                    (case hex4 a b c' d of
                       None \<Rightarrow> None
                     | Some u \<Rightarrow> cons_result u (string_body s''))
                | _ \<Rightarrow> None)
             else
               (case escaped e of
                  None \<Rightarrow> None
                | Some u \<Rightarrow> cons_result u (string_body s')))
      else if c < 0x20 then None
      else cons_result c (string_body s))"

definition is_digit :: "code_unit \<Rightarrow> bool" where
  "is_digit c \<longleftrightarrow> 0x30 \<le> c \<and> c \<le> 0x39"

text \<open>One digit or more at the front of the text.\<close>

definition digits1 :: "js_string \<Rightarrow> (js_string \<times> js_string) option" where
  "digits1 s = (if takeWhile is_digit s = [] then None else Some (takeWhile is_digit s, dropWhile is_digit s))"

definition number_int :: "js_string \<Rightarrow> (js_string \<times> js_string) option" where
  "number_int s =
     (case s of
        [] \<Rightarrow> None
      | c # r \<Rightarrow> if c = 0x30 then Some ([c], r) else digits1 s)"

definition number_frac :: "js_string \<Rightarrow> (js_string \<times> js_string) option" where
  "number_frac s =
     (case s of
        c # r \<Rightarrow>
          if c = 0x2E then (case digits1 r of None \<Rightarrow> None | Some (ds, rest) \<Rightarrow> Some (c # ds, rest))
          else Some ([], s)
      | [] \<Rightarrow> Some ([], s))"

definition number_exp :: "js_string \<Rightarrow> (js_string \<times> js_string) option" where
  "number_exp s =
     (case s of
        c # r \<Rightarrow>
          if c = 0x65 \<or> c = 0x45 then
            (case r of
               sg # r' \<Rightarrow>
                 if sg = 0x2B \<or> sg = 0x2D then
                   (case digits1 r' of None \<Rightarrow> None | Some (ds, rest) \<Rightarrow> Some (c # sg # ds, rest))
                 else (case digits1 r of None \<Rightarrow> None | Some (ds, rest) \<Rightarrow> Some (c # ds, rest))
             | [] \<Rightarrow> None)
          else Some ([], s)
      | [] \<Rightarrow> Some ([], s))"

text \<open>A numeral: an optional minus, the integer part, an optional fraction and exponent.\<close>

definition number :: "js_string \<Rightarrow> (js_string \<times> js_string) option" where
  "number s =
     (let (sign, s1) = (case s of c # r \<Rightarrow> if c = 0x2D then ([c], r) else ([], s) | [] \<Rightarrow> ([], s))
      in case number_int s1 of
           None \<Rightarrow> None
         | Some (i, s2) \<Rightarrow>
             (case number_frac s2 of
                None \<Rightarrow> None
              | Some (f, s3) \<Rightarrow>
                  (case number_exp s3 of
                     None \<Rightarrow> None
                   | Some (e, s4) \<Rightarrow> Some (sign @ i @ f @ e, s4))))"

text \<open>\<open>true\<close>, \<open>false\<close>, \<open>null\<close> or a numeral.\<close>

definition literal :: "js_string \<Rightarrow> (json \<times> js_string) option" where
  "literal s =
     (if take 4 s = str ''true'' then Some (JBool True, drop 4 s)
      else if take 5 s = str ''false'' then Some (JBool False, drop 5 s)
      else if take 4 s = str ''null'' then Some (JNull, drop 4 s)
      else (case number s of None \<Rightarrow> None | Some (l, rest) \<Rightarrow> Some (JNumber l, rest)))"

text \<open>
  The members of an object text create the properties from left to right; a name that
  comes again replaces the value and keeps its place.
\<close>

fun set_property :: "js_string \<Rightarrow> json \<Rightarrow> (js_string \<times> json) list \<Rightarrow> (js_string \<times> json) list" where
  "set_property k v [] = [(k, v)]"
| "set_property k v (p # ps) = (if fst p = k then (k, v) # ps else p # set_property k v ps)"

definition object_of :: "(js_string \<times> json) list \<Rightarrow> json" where
  "object_of members = JObject (foldl (\<lambda>obj m. set_property (fst m) (snd m) obj) [] members)"

text \<open>
  A value; the elements of an array up to \<open>]\<close>; the members of an object up to \<open>}\<close>.
  The tests on the lengths tell that the recursion ends: what follows a value or a name
  is shorter than the text they began.
\<close>

function parse_value :: "js_string \<Rightarrow> (json \<times> js_string) option"
  and parse_elements :: "js_string \<Rightarrow> (json list \<times> js_string) option"
  and parse_members :: "js_string \<Rightarrow> ((js_string \<times> json) list \<times> js_string) option"
where
  "parse_value s =
     (case s of
        [] \<Rightarrow> None
      | c # r \<Rightarrow>
          if c = 0x22 then
            (case string_body r of None \<Rightarrow> None | Some (t, rest) \<Rightarrow> Some (JString t, rest))
          else if c = 0x5B then
            (case skip_ws r of
               [] \<Rightarrow> None
             | d # r' \<Rightarrow>
                 if d = 0x5D then Some (JArray [], r')
                 else (case parse_elements r of
                         None \<Rightarrow> None
                       | Some (vs, rest) \<Rightarrow> Some (JArray vs, rest)))
          else if c = 0x7B then
            (case skip_ws r of
               [] \<Rightarrow> None
             | d # r' \<Rightarrow>
                 if d = 0x7D then Some (JObject [], r')
                 else (case parse_members r of
                         None \<Rightarrow> None
                       | Some (ms, rest) \<Rightarrow> Some (object_of ms, rest)))
          else literal s)"
| "parse_elements s =
     (case parse_value (skip_ws s) of
        None \<Rightarrow> None
      | Some (v, r) \<Rightarrow>
          (case skip_ws r of
             [] \<Rightarrow> None
           | d # r' \<Rightarrow>
               if d = 0x5D then Some ([v], r')
               else if d = 0x2C \<and> length r' < length s then cons_result v (parse_elements r')
               else None))"
| "parse_members s =
     (case skip_ws s of
        [] \<Rightarrow> None
      | q # r \<Rightarrow>
          if q = 0x22 then
            (case string_body r of
               None \<Rightarrow> None
             | Some (k, r1) \<Rightarrow>
                 (case skip_ws r1 of
                    [] \<Rightarrow> None
                  | c # r2 \<Rightarrow>
                      if c = 0x3A \<and> length r2 < length s then
                        (case parse_value (skip_ws r2) of
                           None \<Rightarrow> None
                         | Some (v, r3) \<Rightarrow>
                             (case skip_ws r3 of
                                [] \<Rightarrow> None
                              | d # r4 \<Rightarrow>
                                  if d = 0x7D then Some ([(k, v)], r4)
                                  else if d = 0x2C \<and> length r4 < length s then
                                    cons_result (k, v) (parse_members r4)
                                  else None))
                      else None))
          else None)"
  by pat_completeness auto
termination
  by (relation "measure (\<lambda>x. case x of
        Inl s \<Rightarrow> 2 * length s
      | Inr (Inl s) \<Rightarrow> 2 * length s + 1
      | Inr (Inr s) \<Rightarrow> 2 * length s + 1)")
    (auto simp add: skip_ws_def less_Suc_eq_le length_dropWhile_le
       intro: order_trans [OF length_dropWhile_le] less_imp_le)

declare parse_value.simps [simp del] parse_elements.simps [simp del]
  parse_members.simps [simp del]

text \<open>\<open>JSON.parse(text)\<close>: one value, with white space around it and nothing else.\<close>

definition JSON_parse :: "js_string \<Rightarrow> json option" where
  "JSON_parse text =
     (case parse_value (skip_ws text) of
        None \<Rightarrow> None
      | Some (v, rest) \<Rightarrow> if skip_ws rest = [] then Some v else None)"

section \<open>Objects and records of the protocol\<close>

text \<open>
  \<open>publicKeys: Record<string, string> = {}\<close> is a plain object. Reading a key that is not
  an own property finds the members of \<open>Object.prototype\<close>; writing \<open>__proto__\<close> with a
  string or with \<open>undefined\<close> calls the prototype's setter, which ignores such a value.
  A value read from the object is \<open>undefined\<close>, a string, or a member of the prototype
  (named by its key).
\<close>

datatype js_value = Undefined | String js_string | Builtin js_string

type_synonym js_object = "js_string \<rightharpoonup> js_value"

definition Object_prototype_keys :: "js_string list" where
  "Object_prototype_keys =
     map str [''constructor'', ''hasOwnProperty'', ''isPrototypeOf'', ''propertyIsEnumerable'',
       ''toLocaleString'', ''toString'', ''valueOf'', ''__proto__'', ''__defineGetter__'',
       ''__defineSetter__'', ''__lookupGetter__'', ''__lookupSetter__'']"

definition Get :: "js_object \<Rightarrow> js_string \<Rightarrow> js_value" where
  "Get obj k =
     (case obj k of
        Some v \<Rightarrow> v
      | None \<Rightarrow> if k \<in> set Object_prototype_keys then Builtin k else Undefined)"

definition Set :: "js_object \<Rightarrow> js_string \<Rightarrow> js_value \<Rightarrow> js_object" where
  "Set obj k v = (if k = str ''__proto__'' then obj else obj(k \<mapsto> v))"

text \<open>A property typed \<open>string\<close> but declared optional holds a string or \<open>undefined\<close>.\<close>

definition optional :: "js_string option \<Rightarrow> js_value" where
  "optional v = (case v of None \<Rightarrow> Undefined | Some s \<Rightarrow> String s)"

text \<open>An absent argument and the empty string are the falsy values of type \<open>string?\<close>.\<close>

definition falsy :: "js_string option \<Rightarrow> bool" where
  "falsy v \<longleftrightarrow> v = None \<or> v = Some []"

datatype js_error = TypeError | ReferenceError | SyntaxError | Rejection js_string

text \<open>
  Modelled from the spec: the declarations of \<open>HashConnectTypes\<close> and \<open>MessageTypes\<close> are not
  in the source file. The records have the fields that the class reads, writes or puts
  in an object literal; the specification's data model gives the others (\<open>icon\<close>, the \<open>topic\<close>
  of a transaction and of an account response) and tells which are optional:
  \<open>AppMetadata | WalletMetadata\<close> is \<open>{ name, description, icon, url?, publicKey? }\<close>. The
  fields of the records other than \<open>metadata\<close> carry a prefix, since several records have a
  \<open>topic\<close> and the methods have parameters of the same names.
\<close>

record metadata =
  name :: js_string
  description :: js_string
  icon :: js_string
  url :: "js_string option"
  publicKey :: "js_string option"

record connectionState =
  cs_topic :: js_string
  cs_expires :: nat

record pairingData =
  pd_metadata :: metadata
  pd_topic :: js_string
  pd_network :: js_string
  pd_multiAccount :: bool

record initilizationData =
  init_privKey :: js_string

text \<open>
  \<open>Transaction.byteArray\<close> holds bytes when the caller hands the transaction over, and
  \<open>sendTransaction\<close> assigns a string to it: a \<open>Uint8Array\<close> or a string.
\<close>

datatype byteArray = Uint8Array "byte list" | Text js_string

definition Buffer_from :: "byteArray \<Rightarrow> byte list" where
  "Buffer_from x = (case x of Uint8Array bs \<Rightarrow> bs | Text s \<Rightarrow> Buffer_from_string s)"

record transaction =
  tx_topic :: js_string
  tx_byteArray :: byteArray

record approvePairing =
  ap_metadata :: metadata
  ap_topic :: js_string
  ap_accountIds :: "js_string list"
  ap_network :: js_string

record acknowledge =
  ack_result :: bool
  ack_topic :: js_string
  ack_msg_id :: js_string

record rejected =
  rej_reason :: js_string
  rej_topic :: js_string
  rej_msg_id :: js_string

record additionalAccountResponse =
  aar_accountIds :: "js_string list"
  aar_topic :: js_string

text \<open>
  The two message types of which the class reads no field: their values are passed on to
  \<open>prepareSimpleMessage\<close> as they are.
\<close>

typedecl additionalAccountRequest
typedecl transactionResponse

datatype relayMessageType =
  Transaction | TransactionResponse | ApprovePairing | RejectPairing | Acknowledge
  | AdditionalAccountRequest | AdditionalAccountResponse

datatype message =
  MsgTransaction transaction
  | MsgTransactionResponse transactionResponse
  | MsgApprovePairing approvePairing
  | MsgRejected rejected
  | MsgAcknowledge acknowledge
  | MsgAdditionalAccountRequest additionalAccountRequest
  | MsgAdditionalAccountResponse additionalAccountResponse

text \<open>The envelope that \<open>prepareSimpleMessage\<close> returns has an \<open>id\<close>; the rest is open.\<close>

record envelope =
  id' :: js_string

section \<open>The session and its collaborators\<close>

text \<open>
  The calls that the class makes on the relay. The third argument of \<open>publish\<close> is whatever
  the caller read from \<open>publicKeys\<close>.
\<close>

datatype 'e relay_call =
  Relay_init
  | Relay_addDecryptionKey js_string
  | Relay_subscribe js_string
  | Relay_publish js_string 'e js_value

text \<open>
  The state: the fields of the \<open>HashConnect\<close> instance, the caller's metadata and transaction
  objects (a store from references to objects, since the class keeps and mutates the
  caller's objects), and the calls made on the relay so far. \<open>metadata\<close> and \<open>privateKey\<close>
  are unset until \<open>init\<close>. Of a metadata object the state holds the values of the
  properties (\<open>metadata_store\<close>) and their names in the order in which the properties
  were created (\<open>metadata_keys\<close>), which is the order in which \<open>JSON.stringify\<close> writes
  them.
\<close>

type_synonym ref = nat

record 'e world =
  this_metadata :: "ref option"
  publicKeys :: js_object
  privateKey :: "js_string option"
  debug :: bool
  metadata_store :: "ref \<Rightarrow> metadata"
  metadata_keys :: "ref \<Rightarrow> js_string list"
  transaction_store :: "ref \<Rightarrow> transaction"
  relay_calls :: "'e envelope_scheme relay_call list"

text \<open>The global \<open>window\<close>: not declared (reading it throws), falsy, or a window with its origin.\<close>

datatype window_global = Undeclared | Falsy | Window js_string

text \<open>
  What the class imports and does not define is a parameter: the message utility, the relay
  (each call's promise fulfils, \<open>None\<close>, or rejects with an error), the key functions of
  js-waku (\<open>getPublicKey\<close> may throw on a key it does not accept) and the global \<open>window\<close>.
  Their answers may depend on the state at the call.
\<close>

record 'e collaborators =
  prepareSimpleMessage :: "relayMessageType \<Rightarrow> message \<Rightarrow> 'e world \<Rightarrow> 'e envelope_scheme"
  createRandomTopicId :: "'e world \<Rightarrow> js_string"
  relay_settles :: "'e envelope_scheme relay_call \<Rightarrow> 'e world \<Rightarrow> js_error option"
  generatePrivateKey :: "'e world \<Rightarrow> byte list"
  getPublicKey :: "byte list \<Rightarrow> js_error + byte list"
  window :: window_global

text \<open>A call on the relay is recorded; its promise settles as the relay decides.\<close>

definition relay :: "'e collaborators \<Rightarrow> 'e envelope_scheme relay_call \<Rightarrow> 'e world
    \<Rightarrow> js_error option \<times> 'e world" where
  "relay E c w = (relay_settles E c w, w\<lparr>relay_calls := relay_calls w @ [c]\<rparr>)"

definition update_metadata :: "ref \<Rightarrow> (metadata \<Rightarrow> metadata) \<Rightarrow> 'e world \<Rightarrow> 'e world" where
  "update_metadata r f w = w\<lparr>metadata_store := (metadata_store w)(r := f (metadata_store w r))\<rparr>"

text \<open>
  An assignment \<open>object.key = value\<close> to a metadata object: a property that the object has
  keeps its place among the properties, a new one comes last.
\<close>

definition assign_key :: "js_string \<Rightarrow> js_string list \<Rightarrow> js_string list" where
  "assign_key k ks = (if k \<in> set ks then ks else ks @ [k])"

definition assign_metadata :: "ref \<Rightarrow> js_string \<Rightarrow> (metadata \<Rightarrow> metadata) \<Rightarrow> 'e world
    \<Rightarrow> 'e world" where
  "assign_metadata r k f w =
     update_metadata r f
       (w\<lparr>metadata_keys := (metadata_keys w)(r := assign_key k (metadata_keys w r))\<rparr>)"

definition update_transaction :: "ref \<Rightarrow> (transaction \<Rightarrow> transaction) \<Rightarrow> 'e world \<Rightarrow> 'e world" where
  "update_transaction r f w =
     w\<lparr>transaction_store := (transaction_store w)(r := f (transaction_store w r))\<rparr>"

text \<open>
  \<^verbatim>\<open>
  publicKeys: Record<string, string> = {};
  debug: boolean = false;
  constructor(debug?: boolean) { ... if(debug) this.debug = debug; this.setupEvents(); }
  \<close>
  The instance starts with an empty \<open>publicKeys\<close>; the objects of the caller are given
  (the metadata objects with the order of their properties). The
  event channels and the listener for inbound payloads that the constructor sets up are
  not part of the state: no property below is about them.
\<close>

definition constructor :: "bool option \<Rightarrow> (ref \<Rightarrow> metadata) \<Rightarrow> (ref \<Rightarrow> js_string list)
    \<Rightarrow> (ref \<Rightarrow> transaction) \<Rightarrow> 'e world" where
  "constructor dbg ms ks ts =
     \<lparr>this_metadata = None, publicKeys = Map.empty, privateKey = None,
      debug = (dbg = Some True), metadata_store = ms, metadata_keys = ks,
      transaction_store = ts, relay_calls = []\<rparr>"


section \<open>The operations of the class\<close>

text \<open>
  An \<open>async\<close> method returns a promise: the model returns how it settles (\<open>Inl\<close> the
  rejection, \<open>Inr\<close> the value) and the state it leaves. \<open>console.log\<close> is not modelled.
\<close>

text \<open>
  \<^verbatim>\<open>
  private generateEncryptionKeys(): string {
      let privKey = generatePrivateKey();
      let privKeyString = Buffer.from(privKey).toString('base64')
      return privKeyString;
  }
  \<close>
\<close>

definition generateEncryptionKeys :: "'e collaborators \<Rightarrow> 'e world \<Rightarrow> js_string" where
  "generateEncryptionKeys E w =
     (let privKey = generatePrivateKey E w;
          privKeyString = Buffer_toString_base64 privKey
      in privKeyString)"

text \<open>
  \<^verbatim>\<open>
  async init(metadata, privKey?: string): Promise<InitilizationData> {
      this.metadata = metadata;
      if(!privKey)
          this.privateKey = this.generateEncryptionKeys();
      else
          this.privateKey = privKey;
      metadata.publicKey = Buffer.from(getPublicKey(Buffer.from(this.privateKey, 'base64'))).toString('base64');
      let initData = { privKey: this.privateKey }
      if(window)
          this.metadata.url = window.location.origin;
      await this.relay.init();
      this.relay.addDecryptionKey(this.privateKey);
      return initData;
  }
  \<close>
  The argument \<open>metadata\<close> is a reference to the caller's object, which \<open>this.metadata\<close>
  then shares.
\<close>

definition init :: "'e collaborators \<Rightarrow> ref \<Rightarrow> js_string option \<Rightarrow> 'e world
    \<Rightarrow> (js_error + initilizationData) \<times> 'e world" where
  "init E metadata privKey w =
     (let w = w\<lparr>this_metadata := Some metadata\<rparr>;
          key = (case privKey of
                   None \<Rightarrow> generateEncryptionKeys E w
                 | Some k \<Rightarrow> if falsy privKey then generateEncryptionKeys E w else k);
          w = w\<lparr>privateKey := Some key\<rparr>
      in case getPublicKey E (Buffer_from_base64 key) of
           Inl e \<Rightarrow> (Inl e, w)
         | Inr pub \<Rightarrow>
             let w = assign_metadata metadata (str ''publicKey'')
                       (\<lambda>m. m\<lparr>publicKey := Some (Buffer_toString_base64 pub)\<rparr>) w;
                 initData = \<lparr>init_privKey = key\<rparr>
             in case window E of
                  Undeclared \<Rightarrow> (Inl ReferenceError, w)
                | win \<Rightarrow>
                    let w = (case win of
                               Window origin \<Rightarrow>
                                 (case this_metadata w of
                                    Some r \<Rightarrow> assign_metadata r (str ''url'')
                                                (\<lambda>m. m\<lparr>url := Some origin\<rparr>) w
                                  | None \<Rightarrow> w)
                             | _ \<Rightarrow> w)
                    in case relay E Relay_init w of
                         (Some e, w) \<Rightarrow> (Inl e, w)
                       | (None, w) \<Rightarrow>
                           (Inr initData, snd (relay E (Relay_addDecryptionKey key) w)))"

text \<open>
  \<^verbatim>\<open>
  async connect(topic?: string, metadataToConnect?): Promise<ConnectionState> {
      if(!topic) {
          topic = this.messages.createRandomTopicId();
      }
      if(metadataToConnect)
          this.publicKeys[topic] = metadataToConnect.publicKey as string;
      let state = { topic: topic, expires: 0 }
      await this.relay.subscribe(state.topic);
      return state;
  }
  \<close>
\<close>

definition connect :: "'e collaborators \<Rightarrow> js_string option \<Rightarrow> metadata option \<Rightarrow> 'e world
    \<Rightarrow> (js_error + connectionState) \<times> 'e world" where
  "connect E topic metadataToConnect w =
     (let topic = (case topic of
                     None \<Rightarrow> createRandomTopicId E w
                   | Some t \<Rightarrow> if falsy topic then createRandomTopicId E w else t);
          w = (case metadataToConnect of
                 None \<Rightarrow> w
               | Some m \<Rightarrow> w\<lparr>publicKeys := Set (publicKeys w) topic (optional (publicKey m))\<rparr>);
          state = \<lparr>cs_topic = topic, cs_expires = 0\<rparr>
      in case relay E (Relay_subscribe (cs_topic state)) w of
           (Some e, w) \<Rightarrow> (Inl e, w)
         | (None, w) \<Rightarrow> (Inr state, w))"

text \<open>
  \<^verbatim>\<open>
  async sendTransaction(topic: string, transaction: MessageTypes.Transaction): Promise<string> {
      transaction.byteArray = Buffer.from(transaction.byteArray).toString("base64");
      const msg = this.messages.prepareSimpleMessage(RelayMessageType.Transaction, transaction, this);
      await this.relay.publish(topic, msg, this.publicKeys[topic]);
      return msg.id;
  }
  \<close>
  The argument \<open>transaction\<close> is a reference to the caller's object.
\<close>

definition sendTransaction :: "'e collaborators \<Rightarrow> js_string \<Rightarrow> ref \<Rightarrow> 'e world
    \<Rightarrow> (js_error + js_string) \<times> 'e world" where
  "sendTransaction E topic transaction w =
     (let w = update_transaction transaction
                (\<lambda>t. t\<lparr>tx_byteArray := Text (Buffer_toString_base64 (Buffer_from (tx_byteArray t)))\<rparr>) w;
          msg = prepareSimpleMessage E Transaction
                  (MsgTransaction (transaction_store w transaction)) w
      in case relay E (Relay_publish topic msg (Get (publicKeys w) topic)) w of
           (Some e, w) \<Rightarrow> (Inl e, w)
         | (None, w) \<Rightarrow> (Inr (id' msg), w))"

text \<open>
  \<^verbatim>\<open>
  async requestAdditionalAccounts(topic: string, message): Promise<string> {
      const msg = this.messages.prepareSimpleMessage(RelayMessageType.AdditionalAccountRequest, message, this);
      await this.relay.publish(topic, msg, this.publicKeys[topic]);
      return msg.id;
  }
  \<close>
\<close>

definition requestAdditionalAccounts :: "'e collaborators \<Rightarrow> js_string \<Rightarrow> additionalAccountRequest
    \<Rightarrow> 'e world \<Rightarrow> (js_error + js_string) \<times> 'e world" where
  "requestAdditionalAccounts E topic message w =
     (let msg = prepareSimpleMessage E AdditionalAccountRequest
                  (MsgAdditionalAccountRequest message) w
      in case relay E (Relay_publish topic msg (Get (publicKeys w) topic)) w of
           (Some e, w) \<Rightarrow> (Inl e, w)
         | (None, w) \<Rightarrow> (Inr (id' msg), w))"

text \<open>
  \<^verbatim>\<open>
  async sendAdditionalAccounts(topic: string, message): Promise<string> {
      message.accountIds = message.accountIds.map(id => {return id});
      const msg = this.messages.prepareSimpleMessage(RelayMessageType.AdditionalAccountResponse, message, this);
      await this.relay.publish(topic, msg, this.publicKeys[topic]);
      return msg.id;
  }
  \<close>
\<close>

definition sendAdditionalAccounts :: "'e collaborators \<Rightarrow> js_string \<Rightarrow> additionalAccountResponse
    \<Rightarrow> 'e world \<Rightarrow> (js_error + js_string) \<times> 'e world" where
  "sendAdditionalAccounts E topic message w =
     (let message = message\<lparr>aar_accountIds := map (\<lambda>id. id) (aar_accountIds message)\<rparr>;
          msg = prepareSimpleMessage E AdditionalAccountResponse
                  (MsgAdditionalAccountResponse message) w
      in case relay E (Relay_publish topic msg (Get (publicKeys w) topic)) w of
           (Some e, w) \<Rightarrow> (Inl e, w)
         | (None, w) \<Rightarrow> (Inr (id' msg), w))"

text \<open>
  \<^verbatim>\<open>
  async sendTransactionResponse(topic: string, message): Promise<string> {
      const msg = this.messages.prepareSimpleMessage(RelayMessageType.TransactionResponse, message, this);
      await this.relay.publish(topic, msg, this.publicKeys[topic]);
      return msg.id;
  }
  \<close>
\<close>

definition sendTransactionResponse :: "'e collaborators \<Rightarrow> js_string \<Rightarrow> transactionResponse
    \<Rightarrow> 'e world \<Rightarrow> (js_error + js_string) \<times> 'e world" where
  "sendTransactionResponse E topic message w =
     (let msg = prepareSimpleMessage E TransactionResponse (MsgTransactionResponse message) w
      in case relay E (Relay_publish topic msg (Get (publicKeys w) topic)) w of
           (Some e, w) \<Rightarrow> (Inl e, w)
         | (None, w) \<Rightarrow> (Inr (id' msg), w))"

text \<open>
  \<^verbatim>\<open>
  async pair(pairingData, accounts: string[], network: string): Promise<ConnectionState> {
      let state = await this.connect(pairingData.topic);
      let msg = { metadata: this.metadata, topic: pairingData.topic, accountIds: accounts, network: network }
      msg.metadata.description = this.sanitizeString(msg.metadata.description);
      msg.metadata.name = this.sanitizeString(msg.metadata.name);
      msg.network = this.sanitizeString(msg.network);
      msg.metadata.url = this.sanitizeString(msg.metadata.url!);
      msg.accountIds = msg.accountIds.map(id => {return id});
      this.publicKeys[pairingData.topic] = pairingData.metadata.publicKey as string;
      const payload = this.messages.prepareSimpleMessage(RelayMessageType.ApprovePairing, msg, this)
      this.relay.publish(pairingData.topic, payload, this.publicKeys[pairingData.topic])
      return state;
  }
  \<close>
  \<open>msg.metadata\<close> is the object \<open>this.metadata\<close>, so the three assignments write to the
  store; reading a property of an unset \<open>this.metadata\<close>, and calling \<open>replace\<close> on an
  absent \<open>url\<close>, throw a \<open>TypeError\<close>. The promise of the last \<open>publish\<close> is not awaited:
  the call is made and however it settles, \<open>pair\<close> returns \<open>state\<close>.
\<close>

definition pair :: "'e collaborators \<Rightarrow> pairingData \<Rightarrow> js_string list \<Rightarrow> js_string \<Rightarrow> 'e world
    \<Rightarrow> (js_error + connectionState) \<times> 'e world" where
  "pair E pairingData accounts network w =
     (case connect E (Some (pd_topic pairingData)) None w of
        (Inl e, w) \<Rightarrow> (Inl e, w)
      | (Inr state, w) \<Rightarrow>
          (case this_metadata w of
             None \<Rightarrow> (Inl TypeError, w)
           | Some r \<Rightarrow>
               let w = assign_metadata r (str ''description'')
                         (\<lambda>m. m\<lparr>description := sanitizeString (description m)\<rparr>) w;
                   w = assign_metadata r (str ''name'')
                         (\<lambda>m. m\<lparr>name := sanitizeString (name m)\<rparr>) w;
                   msg_network = sanitizeString network
               in case url (metadata_store w r) of
                    None \<Rightarrow> (Inl TypeError, w)
                  | Some u \<Rightarrow>
                      let w = assign_metadata r (str ''url'')
                                (\<lambda>m. m\<lparr>url := Some (sanitizeString u)\<rparr>) w;
                          msg_accountIds = map (\<lambda>id. id) accounts;
                          w = w\<lparr>publicKeys := Set (publicKeys w) (pd_topic pairingData)
                                 (optional (publicKey (pd_metadata pairingData)))\<rparr>;
                          msg = \<lparr>ap_metadata = metadata_store w r, ap_topic = pd_topic pairingData,
                                 ap_accountIds = msg_accountIds, ap_network = msg_network\<rparr>;
                          payload = prepareSimpleMessage E ApprovePairing (MsgApprovePairing msg) w;
                          w = snd (relay E (Relay_publish (pd_topic pairingData) payload
                                 (Get (publicKeys w) (pd_topic pairingData))) w)
                      in (Inr state, w)))"

text \<open>
  \<^verbatim>\<open>
  async reject(topic: string, reason: string, msg_id: string) {
      let reject = { reason: reason, topic: topic, msg_id: msg_id }
      reject.reason = this.sanitizeString(reject.reason!);
      const msg = this.messages.prepareSimpleMessage(RelayMessageType.RejectPairing, reject, this)
      await this.relay.publish(topic, msg, this.publicKeys[topic]);
  }
  \<close>
\<close>

definition reject :: "'e collaborators \<Rightarrow> js_string \<Rightarrow> js_string \<Rightarrow> js_string \<Rightarrow> 'e world
    \<Rightarrow> (js_error + unit) \<times> 'e world" where
  "reject E topic reason msg_id w =
     (let rej = \<lparr>rej_reason = reason, rej_topic = topic, rej_msg_id = msg_id\<rparr>;
          rej = rej\<lparr>rej_reason := sanitizeString (rej_reason rej)\<rparr>;
          msg = prepareSimpleMessage E RejectPairing (MsgRejected rej) w
      in case relay E (Relay_publish topic msg (Get (publicKeys w) topic)) w of
           (Some e, w) \<Rightarrow> (Inl e, w)
         | (None, w) \<Rightarrow> (Inr (), w))"

text \<open>
  \<^verbatim>\<open>
  async acknowledge(topic: string, pubKey: string, msg_id: string) {
      const ack = { result: true, topic: topic, msg_id: msg_id }
      const ackPayload = this.messages.prepareSimpleMessage(RelayMessageType.Acknowledge, ack, this);
      await this.relay.publish(topic, ackPayload, pubKey)
  }
  \<close>
\<close>

definition acknowledge :: "'e collaborators \<Rightarrow> js_string \<Rightarrow> js_string \<Rightarrow> js_string \<Rightarrow> 'e world
    \<Rightarrow> (js_error + unit) \<times> 'e world" where
  "acknowledge E topic pubKey msg_id w =
     (let ack = \<lparr>ack_result = True, ack_topic = topic, ack_msg_id = msg_id\<rparr>;
          ackPayload = prepareSimpleMessage E Acknowledge (MsgAcknowledge ack) w
      in case relay E (Relay_publish topic ackPayload (String pubKey)) w of
           (Some e, w) \<Rightarrow> (Inl e, w)
         | (None, w) \<Rightarrow> (Inr (), w))"

text \<open>
  A metadata object and a pairing data object as values of JavaScript, which is how
  \<open>JSON.stringify\<close> sees them and \<open>JSON.parse\<close> returns them. \<open>JSON.stringify\<close> writes
  the properties of an object in the order of their creation and leaves out a property
  that is \<open>undefined\<close>. For a metadata object that order is the list of names that the
  state keeps for it. A name that the list has twice counts once, and a property that
  the record holds and the list lacks comes after the listed ones, so that whatever the
  list every property of the object is written once. The pairing data object is the one
  that the literal in \<open>generatePairingString\<close> builds: \<open>metadata\<close>, \<open>topic\<close>, \<open>network\<close>,
  \<open>multiAccount\<close>.
\<close>

definition metadata_names :: "js_string list" where
  "metadata_names = map str [''name'', ''description'', ''icon'', ''url'', ''publicKey'']"

definition metadata_property :: "metadata \<Rightarrow> js_string \<Rightarrow> json option" where
  "metadata_property m k =
     (if k = str ''name'' then Some (JString (name m))
      else if k = str ''description'' then Some (JString (description m))
      else if k = str ''icon'' then Some (JString (icon m))
      else if k = str ''url'' then map_option JString (url m)
      else if k = str ''publicKey'' then map_option JString (publicKey m)
      else None)"

definition own_keys :: "js_string list \<Rightarrow> js_string list" where
  "own_keys ks = remdups ks @ filter (\<lambda>k. k \<notin> set ks) metadata_names"

definition metadata_json :: "js_string list \<Rightarrow> metadata \<Rightarrow> json" where
  "metadata_json ks m =
     JObject (List.map_filter (\<lambda>k. map_option (Pair k) (metadata_property m k)) (own_keys ks))"

definition pairingData_json :: "js_string list \<Rightarrow> pairingData \<Rightarrow> json" where
  "pairingData_json ks d =
     JObject
       [(str ''metadata'', metadata_json ks (pd_metadata d)), (str ''topic'', JString (pd_topic d)),
        (str ''network'', JString (pd_network d)), (str ''multiAccount'', JBool (pd_multiAccount d))]"

text \<open>
  \<^verbatim>\<open>
  generatePairingString(state: ConnectionState, network: string, multiAccount: boolean): string {
      let data: HashConnectTypes.PairingData = {
          metadata: this.metadata, topic: state.topic, network: network, multiAccount: multiAccount
      }
      data.metadata.description = this.sanitizeString(data.metadata.description);
      data.metadata.name = this.sanitizeString(data.metadata.name);
      data.network = this.sanitizeString(data.network);
      data.metadata.url = this.sanitizeString(data.metadata.url!);
      let pairingString: string = Buffer.from(JSON.stringify(data)).toString("base64")
      return pairingString;
  }
  \<close>
  \<open>data.metadata\<close> is the object \<open>this.metadata\<close>. The method is not \<open>async\<close>: \<open>Inl\<close> is the
  exception it throws.
\<close>

definition generatePairingString :: "connectionState \<Rightarrow> js_string \<Rightarrow> bool \<Rightarrow> 'e world
    \<Rightarrow> (js_error + js_string) \<times> 'e world" where
  "generatePairingString state network multiAccount w =
     (case this_metadata w of
        None \<Rightarrow> (Inl TypeError, w)
      | Some r \<Rightarrow>
          let w = assign_metadata r (str ''description'')
                    (\<lambda>m. m\<lparr>description := sanitizeString (description m)\<rparr>) w;
              w = assign_metadata r (str ''name'')
                    (\<lambda>m. m\<lparr>name := sanitizeString (name m)\<rparr>) w;
              data_network = sanitizeString network
          in case url (metadata_store w r) of
               None \<Rightarrow> (Inl TypeError, w)
             | Some u \<Rightarrow>
                 let w = assign_metadata r (str ''url'')
                           (\<lambda>m. m\<lparr>url := Some (sanitizeString u)\<rparr>) w;
                     data = \<lparr>pd_metadata = metadata_store w r, pd_topic = cs_topic state,
                             pd_network = data_network, pd_multiAccount = multiAccount\<rparr>;
                     pairingString = Buffer_toString_base64
                       (Buffer_from_string
                          (JSON_stringify (pairingData_json (metadata_keys w r) data)))
                 in (Inr pairingString, w))"

text \<open>
  \<^verbatim>\<open>
  decodePairingString(pairingString: string) {
      let json_string: string = Buffer.from(pairingString,'base64').toString();
      let data: HashConnectTypes.PairingData = JSON.parse(json_string);
      return data;
  }
  \<close>
  The type of \<open>data\<close> is not checked when the program runs: what is returned is what
  \<open>JSON.parse\<close> returned.
\<close>

definition decodePairingString :: "js_string \<Rightarrow> js_error + json" where
  "decodePairingString pairingString =
     (let json_string = Buffer_toString (Buffer_from_base64 pairingString)
      in case JSON_parse json_string of
           None \<Rightarrow> Inl SyntaxError
         | Some data \<Rightarrow> Inr data)"

section \<open>The words of the specification\<close>

text \<open>
  The sanitizer's safe alphabet (word characters, \<open>.\<close> and space) and the numeric character
  reference of a code unit, \<open>&#\<close> followed by its decimal number and \<open>;\<close>.
\<close>

definition safe_alphabet :: "code_unit \<Rightarrow> bool" where
  "safe_alphabet c \<longleftrightarrow> word_char c \<or> c = of_char CHR ''.'' \<or> c = of_char CHR '' ''"

definition character_reference :: "code_unit \<Rightarrow> js_string" where
  "character_reference c = str ''&#'' @ Number_toString (unat c) @ str '';''"





text \<open>
  The values without numbers whose objects name every property once: of these
  \<open>JSON.stringify\<close> writes a text that \<open>JSON.parse\<close> reads back as the same value.
\<close>

fun plain :: "json \<Rightarrow> bool" where
  "plain (JNumber l) = False"
| "plain (JArray vs) = list_all plain vs"
| "plain (JObject ms) = (distinct (map fst ms) \<and> list_all (\<lambda>m. plain (snd m)) ms)"
| "plain v = True"

text \<open>A string is well formed when every surrogate in it is half of a pair.\<close>

fun well_formed :: "js_string \<Rightarrow> bool" where
  "well_formed [] = True"
| "well_formed (c # s) =
     (if is_lead c then (case s of [] \<Rightarrow> False | d # s' \<Rightarrow> is_trail d \<and> well_formed s')
      else \<not> is_trail c \<and> well_formed s)"

section \<open>A concrete session\<close>

text \<open>
  Objects, collaborators and states on which the operations are run: a dApp's metadata, a
  transaction of three bytes, the pairing data of a counterparty, a relay that accepts
  every call and one whose \<open>publish\<close> always rejects.
\<close>

definition demo_metadata :: metadata where
  "demo_metadata =
     \<lparr>name = str ''My dApp'', description = str ''A <b>demo</b>'', icon = str ''icon.png'',
      url = Some (str ''https://old.example''), publicKey = None\<rparr>"

definition demo_keys :: "js_string list" where
  "demo_keys = map str [''name'', ''description'', ''icon'', ''url'']"

definition demo_transaction :: transaction where
  "demo_transaction = \<lparr>tx_topic = str ''t1'', tx_byteArray = Uint8Array [1, 2, 3]\<rparr>"

definition demo_pairingData :: pairingData where
  "demo_pairingData =
     \<lparr>pd_metadata = demo_metadata\<lparr>publicKey := Some (str ''cHVi'')\<rparr>, pd_topic = str ''t9'',
      pd_network = str ''testnet'', pd_multiAccount = False\<rparr>"

definition demo_collaborators :: "(relayMessageType \<times> message) collaborators" where
  "demo_collaborators =
     \<lparr>prepareSimpleMessage = (\<lambda>t m w. \<lparr>id' = str ''id1'', \<dots> = (t, m)\<rparr>),
      createRandomTopicId = (\<lambda>w. str ''t1''),
      relay_settles = (\<lambda>c w. None),
      generatePrivateKey = (\<lambda>w. [7, 7, 7]),
      getPublicKey = (\<lambda>k. Inr (rev k)),
      window = Window (str ''https://dapp.example'')\<rparr>"

definition publish_rejects :: "'e relay_call \<Rightarrow> 'w \<Rightarrow> js_error option" where
  "publish_rejects c w =
     (case c of Relay_publish t m k \<Rightarrow> Some (Rejection (str ''offline'')) | _ \<Rightarrow> None)"

definition demo_world :: "(relayMessageType \<times> message) world" where
  "demo_world = constructor None (\<lambda>r. demo_metadata) (\<lambda>r. demo_keys) (\<lambda>r. demo_transaction)"

text \<open>The state after \<open>init\<close> was called with the metadata object at reference 0.\<close>

definition initialized_world :: "(relayMessageType \<times> message) world" where
  "initialized_world = snd (init demo_collaborators 0 None demo_world)"

text \<open>
  Pairing data whose free text has only characters of the safe alphabet, and a session that
  holds its metadata; the same without a \<open>url\<close>, which the type allows.
\<close>

definition safe_pairingData :: pairingData where
  "safe_pairingData =
     \<lparr>pd_metadata =
        \<lparr>name = str ''My dApp'', description = str ''A demo'', icon = str ''icon.png'',
         url = Some (str ''dapp.example''), publicKey = Some (str ''BwcH'')\<rparr>,
      pd_topic = str ''t1'', pd_network = str ''testnet'', pd_multiAccount = False\<rparr>"

definition safe_world :: "(relayMessageType \<times> message) world" where
  "safe_world =
     (constructor None (\<lambda>r. pd_metadata safe_pairingData)
        (\<lambda>r. map str [''name'', ''description'', ''icon'', ''publicKey'', ''url''])
        (\<lambda>r. demo_transaction))
       \<lparr>this_metadata := Some 0\<rparr>"

definition nourl_pairingData :: pairingData where
  "nourl_pairingData =
     \<lparr>pd_metadata =
        \<lparr>name = str ''My dApp'', description = str ''A demo'', icon = str ''icon.png'',
         url = None, publicKey = Some (str ''BwcH'')\<rparr>,
      pd_topic = str ''t1'', pd_network = str ''testnet'', pd_multiAccount = False\<rparr>"

definition nourl_world :: "(relayMessageType \<times> message) world" where
  "nourl_world =
     (constructor None (\<lambda>r. pd_metadata nourl_pairingData)
        (\<lambda>r. map str [''name'', ''description'', ''icon'', ''publicKey''])
        (\<lambda>r. demo_transaction))
       \<lparr>this_metadata := Some 0\<rparr>"

section \<open>Properties of the sanitizer\<close>

lemma regex_match_safe: "regex_match c \<longleftrightarrow> \<not> safe_alphabet c"
  by (simp add: regex_match_def safe_alphabet_def)

lemma replacer_reference: "regex_match c \<Longrightarrow> replacer c = character_reference c"
  by (simp add: replacer_def character_reference_def regex_match_def str_def)

lemma sanitizeString_Nil: "sanitizeString [] = []"
  by (simp add: sanitizeString_def)

lemma sanitizeString_Cons:
  "sanitizeString (c # s) = (if regex_match c then replacer c else [c]) @ sanitizeString s"
  by (simp add: sanitizeString_def)

lemma sanitizeString_safe: "\<forall>c\<in>set s. \<not> regex_match c \<Longrightarrow> sanitizeString s = s"
  by (induction s) (simp_all add: sanitizeString_Nil sanitizeString_Cons)

lemma ampersand_unsafe: "regex_match 0x26"
  by (simp add: regex_match_def word_char_def)

lemma replacer_grows: "regex_match c \<Longrightarrow> 1 < length (replacer c)"
  by (simp add: replacer_reference character_reference_def str_def)

lemma replacer_unsafe: "regex_match c \<Longrightarrow> \<exists>d\<in>set (replacer c). regex_match d"
  using ampersand_unsafe by (simp add: replacer_reference character_reference_def str_def)

lemma sanitizeString_length: "length s \<le> length (sanitizeString s)"
proof (induction s)
  case Nil
  show ?case by (simp add: sanitizeString_Nil)
next
  case (Cons c s)
  have "1 \<le> length (if regex_match c then replacer c else [c])"
    using replacer_grows [of c] by auto
  with Cons show ?case by (simp add: sanitizeString_Cons)
qed

lemma sanitizeString_grows:
  "\<exists>c\<in>set s. regex_match c \<Longrightarrow> length s < length (sanitizeString s)"
proof (induction s)
  case Nil
  then show ?case by simp
next
  case (Cons c s)
  show ?case
  proof (cases "regex_match c")
    case True
    with replacer_grows [of c] sanitizeString_length [of s] show ?thesis
      by (simp add: sanitizeString_Cons)
  next
    case False
    with Cons show ?thesis by (simp add: sanitizeString_Cons)
  qed
qed

lemma sanitizeString_keeps_unsafe:
  "\<exists>c\<in>set s. regex_match c \<Longrightarrow> \<exists>d\<in>set (sanitizeString s). regex_match d"
proof (induction s)
  case Nil
  then show ?case by simp
next
  case (Cons c s)
  show ?case
  proof (cases "regex_match c")
    case True
    with replacer_unsafe [of c] show ?thesis
      by (auto simp: sanitizeString_Cons)
  next
    case False
    with Cons show ?thesis by (auto simp: sanitizeString_Cons)
  qed
qed

text \<open>
  C8. The sanitizer keeps every code unit of the safe alphabet (word characters, \<open>.\<close> and
  space) and replaces every other code unit by its numeric character reference; \<open>.\<close> passes
  through, and \<open>sanitize("A&B.C")\<close> is \<open>"A&#38;B.C"\<close>. A character of a JavaScript string
  is a UTF-16 code unit here, as it is for the regular expression and for \<open>charCodeAt\<close>.
\<close>

theorem sanitizeString_spec:
  "sanitizeString s = concat (map (\<lambda>c. if safe_alphabet c then [c] else character_reference c) s)
   \<and> sanitizeString (str ''.'') = str ''.''
   \<and> sanitizeString (str ''A&B.C'') = str ''A&#38;B.C''"
proof -
  have "sanitizeString s = concat (map (\<lambda>c. if safe_alphabet c then [c] else character_reference c) s)"
    by (induction s) (simp_all add: sanitizeString_Nil sanitizeString_Cons regex_match_safe
        replacer_reference)
  moreover have "sanitizeString (str ''.'') = str ''.''"
    by code_simp
  moreover have "sanitizeString (str ''A&B.C'') = str ''A&#38;B.C''"
    by code_simp
  ultimately show ?thesis by simp
qed

theorem sanitizeString_spec_witness:
  "sanitizeString (str ''<b>'') = str ''&#60;b&#62;''"
  using sanitizeString_spec [of "str ''<b>''"]
  by (simp add: str_def safe_alphabet_def word_char_def character_reference_def
      Number_toString.simps digit_def)

text \<open>
  A character outside the basic plane is two code units, and each of the two is replaced
  by the reference of its own number.
\<close>

lemma sanitizeString_surrogates:
  "sanitizeString [0xD83D, 0xDE00] = str ''&#55357;&#56832;''"
  by (simp add: sanitizeString_def regex_match_def word_char_def replacer_def str_def
      Number_toString.simps digit_def)

text \<open>
  C2, as stated, fails: the reference written for \<open>&\<close> contains \<open>&\<close>, \<open>#\<close> and \<open>;\<close>, which a
  second pass escapes again.
\<close>

theorem sanitizeString_not_idempotent:
  "sanitizeString (sanitizeString (str ''&'')) \<noteq> sanitizeString (str ''&'')"
  by code_simp

text \<open>
  C2, amended. Sanitizing twice gives the same as sanitizing once exactly for the strings
  that have only characters of the safe alphabet (which the sanitizer leaves unchanged).
\<close>

theorem sanitizeString_idempotent_iff:
  "sanitizeString (sanitizeString s) = sanitizeString s \<longleftrightarrow> (\<forall>c\<in>set s. safe_alphabet c)"
proof
  assume eq: "sanitizeString (sanitizeString s) = sanitizeString s"
  show "\<forall>c\<in>set s. safe_alphabet c"
  proof (rule ccontr)
    assume "\<not> (\<forall>c\<in>set s. safe_alphabet c)"
    then have "\<exists>c\<in>set s. regex_match c" by (simp add: regex_match_safe)
    then have "\<exists>d\<in>set (sanitizeString s). regex_match d"
      by (rule sanitizeString_keeps_unsafe)
    then have "length (sanitizeString s) < length (sanitizeString (sanitizeString s))"
      by (rule sanitizeString_grows)
    with eq show False by simp
  qed
next
  assume "\<forall>c\<in>set s. safe_alphabet c"
  then have "sanitizeString s = s"
    by (simp add: sanitizeString_safe regex_match_safe)
  then show "sanitizeString (sanitizeString s) = sanitizeString s" by simp
qed

theorem sanitizeString_idempotent_iff_witness:
  "list_all safe_alphabet (str ''my app.io'')
   \<and> sanitizeString (sanitizeString (str ''my app.io'')) = sanitizeString (str ''my app.io'')"
  using sanitizeString_idempotent_iff [of "str ''my app.io''"]
  by (simp add: str_def safe_alphabet_def word_char_def)

section \<open>Properties of the session operations\<close>

text \<open>The concrete session after \<open>init\<close>: the metadata object has its key and the origin.\<close>

lemma initialized_world_eq:
  "initialized_world =
     \<lparr>this_metadata = Some 0, publicKeys = Map.empty, privateKey = Some (str ''BwcH''),
      debug = False,
      metadata_store = (\<lambda>r. demo_metadata)
        (0 := demo_metadata\<lparr>publicKey := Some (str ''BwcH''),
                url := Some (str ''https://dapp.example'')\<rparr>),
      metadata_keys = (\<lambda>r. demo_keys)(0 := demo_keys @ [str ''publicKey'']),
      transaction_store = (\<lambda>r. demo_transaction),
      relay_calls = [Relay_init, Relay_addDecryptionKey (str ''BwcH'')]\<rparr>"
  by (simp add: initialized_world_def init_def demo_collaborators_def demo_world_def
      constructor_def generateEncryptionKeys_def relay_def update_metadata_def falsy_def Let_def
      assign_metadata_def assign_key_def demo_keys_def Buffer_from_base64_def base64_sextets_def
      unbase64_def low_byte_def List.map_filter_def base64_char_def str_def)

lemmas demo_defs = demo_collaborators_def demo_world_def initialized_world_eq constructor_def
  demo_pairingData_def demo_metadata_def demo_transaction_def publish_rejects_def

lemmas op_defs = relay_def update_metadata_def assign_metadata_def update_transaction_def
  falsy_def Let_def

lemma world_update_order:
  "w\<lparr>relay_calls := A, metadata_keys := K, metadata_store := B, publicKeys := C\<rparr>
     = w\<lparr>metadata_keys := K, metadata_store := B, publicKeys := C, relay_calls := A\<rparr>"
  by simp

text \<open>
  C1, as stated, fails: on a session with an empty registry \<open>sendTransaction\<close> calls
  \<open>publish\<close>, with \<open>undefined\<close> as the key, and returns the id of the envelope.
\<close>

theorem sendTransaction_unregistered_publishes:
  "publicKeys demo_world (str ''t1'') = None
   \<and> fst (sendTransaction demo_collaborators (str ''t1'') 0 demo_world) = Inr (str ''id1'')
   \<and> relay_calls (snd (sendTransaction demo_collaborators (str ''t1'') 0 demo_world))
       = [Relay_publish (str ''t1'')
            \<lparr>id' = str ''id1'', \<dots> = (Transaction,
               MsgTransaction \<lparr>tx_topic = str ''t1'', tx_byteArray = Text (str ''AQID'')\<rparr>)\<rparr>
            Undefined]"
  by (simp add: sendTransaction_def demo_defs op_defs Get_def Object_prototype_keys_def str_def
      Buffer_from_def base64_char_def)

text \<open>
  C1, amended. For a topic that has no public key in the registry \<open>sendTransaction\<close> checks
  nothing: it calls the relay's \<open>publish\<close> once, on that topic, with the Transaction envelope
  and with what reading the registry gives (\<open>undefined\<close>, or the prototype's member when the
  topic is the name of one); it returns the envelope's id when \<open>publish\<close> fulfils and fails
  with its rejection otherwise.
\<close>

theorem sendTransaction_unregistered:
  "publicKeys w topic = None \<Longrightarrow>
   (let w1 = update_transaction tx
               (\<lambda>t. t\<lparr>tx_byteArray := Text (Buffer_toString_base64 (Buffer_from (tx_byteArray t)))\<rparr>) w;
        msg = prepareSimpleMessage E Transaction (MsgTransaction (transaction_store w1 tx)) w1;
        call = Relay_publish topic msg
                 (if topic \<in> set Object_prototype_keys then Builtin topic else Undefined)
    in relay_calls (snd (sendTransaction E topic tx w)) = relay_calls w @ [call]
       \<and> fst (sendTransaction E topic tx w)
           = (case relay_settles E call w1 of None \<Rightarrow> Inr (id' msg) | Some e \<Rightarrow> Inl e))"
  by (simp add: sendTransaction_def op_defs Get_def split: option.splits)

theorem sendTransaction_unregistered_witness:
  "publicKeys demo_world (str ''t2'') = None
   \<and> relay_calls (snd (sendTransaction (demo_collaborators\<lparr>relay_settles := publish_rejects\<rparr>)
        (str ''t2'') 0 demo_world))
       = [Relay_publish (str ''t2'')
            \<lparr>id' = str ''id1'', \<dots> = (Transaction,
               MsgTransaction \<lparr>tx_topic = str ''t1'', tx_byteArray = Text (str ''AQID'')\<rparr>)\<rparr>
            Undefined]
   \<and> fst (sendTransaction (demo_collaborators\<lparr>relay_settles := publish_rejects\<rparr>)
        (str ''t2'') 0 demo_world) = Inl (Rejection (str ''offline''))"
  using sendTransaction_unregistered [of demo_world "str ''t2''" 0
      "demo_collaborators\<lparr>relay_settles := publish_rejects\<rparr>"]
  by (simp add: demo_defs op_defs Object_prototype_keys_def str_def
      Buffer_from_def base64_char_def)

text \<open>
  C4. Every method that awaits the relay fails when the relay rejects; \<open>pair\<close> does not await
  its \<open>publish\<close>. On an initialised session with a relay that rejects every \<open>publish\<close>,
  \<open>pair\<close> makes the call and returns the connection state, while \<open>sendTransaction\<close> on the
  same session fails with the relay's rejection.
\<close>

theorem pair_drops_publish_rejection:
  "fst (pair (demo_collaborators\<lparr>relay_settles := publish_rejects\<rparr>) demo_pairingData
         [str ''0.0.123''] (str ''testnet'') initialized_world)
     = Inr \<lparr>cs_topic = str ''t9'', cs_expires = 0\<rparr>
   \<and> map (\<lambda>c. publish_rejects c ())
        (relay_calls (snd (pair (demo_collaborators\<lparr>relay_settles := publish_rejects\<rparr>)
           demo_pairingData [str ''0.0.123''] (str ''testnet'') initialized_world)))
     = [None, None, None, Some (Rejection (str ''offline''))]
   \<and> fst (sendTransaction (demo_collaborators\<lparr>relay_settles := publish_rejects\<rparr>) (str ''t9'') 0
         initialized_world) = Inl (Rejection (str ''offline''))"
  by (simp add: pair_def connect_def sendTransaction_def demo_defs op_defs str_def)

text \<open>The methods that await: a rejection of their relay call is their own failure.\<close>

lemma connect_propagates:
  "topic \<noteq> [] \<Longrightarrow> relay_settles E (Relay_subscribe topic) w = Some e
   \<Longrightarrow> fst (connect E (Some topic) None w) = Inl e"
  by (simp add: connect_def op_defs)

lemma pair_propagates_subscribe:
  "pd_topic pairingData \<noteq> []
   \<Longrightarrow> relay_settles E (Relay_subscribe (pd_topic pairingData)) w = Some e
   \<Longrightarrow> fst (pair E pairingData accounts network w) = Inl e"
  by (simp add: pair_def connect_def op_defs)

lemma sendTransaction_propagates:
  "relay_settles E (Relay_publish topic msg (Get (publicKeys w) topic)) w1 = Some e
   \<Longrightarrow> w1 = update_transaction tx
         (\<lambda>t. t\<lparr>tx_byteArray := Text (Buffer_toString_base64 (Buffer_from (tx_byteArray t)))\<rparr>) w
   \<Longrightarrow> msg = prepareSimpleMessage E Transaction (MsgTransaction (transaction_store w1 tx)) w1
   \<Longrightarrow> fst (sendTransaction E topic tx w) = Inl e"
  by (simp add: sendTransaction_def op_defs)

lemma requestAdditionalAccounts_propagates:
  "relay_settles E (Relay_publish topic
      (prepareSimpleMessage E AdditionalAccountRequest (MsgAdditionalAccountRequest message) w)
      (Get (publicKeys w) topic)) w = Some e
   \<Longrightarrow> fst (requestAdditionalAccounts E topic message w) = Inl e"
  by (simp add: requestAdditionalAccounts_def op_defs)

lemma sendAdditionalAccounts_propagates:
  "relay_settles E (Relay_publish topic
      (prepareSimpleMessage E AdditionalAccountResponse (MsgAdditionalAccountResponse message) w)
      (Get (publicKeys w) topic)) w = Some e
   \<Longrightarrow> fst (sendAdditionalAccounts E topic message w) = Inl e"
  by (simp add: sendAdditionalAccounts_def op_defs)

lemma sendTransactionResponse_propagates:
  "relay_settles E (Relay_publish topic
      (prepareSimpleMessage E TransactionResponse (MsgTransactionResponse message) w)
      (Get (publicKeys w) topic)) w = Some e
   \<Longrightarrow> fst (sendTransactionResponse E topic message w) = Inl e"
  by (simp add: sendTransactionResponse_def op_defs)

lemma reject_propagates:
  "relay_settles E (Relay_publish topic
      (prepareSimpleMessage E RejectPairing
         (MsgRejected \<lparr>rej_reason = sanitizeString reason, rej_topic = topic, rej_msg_id = msg_id\<rparr>) w)
      (Get (publicKeys w) topic)) w = Some e
   \<Longrightarrow> fst (reject E topic reason msg_id w) = Inl e"
  by (simp add: reject_def op_defs)

lemma acknowledge_propagates:
  "relay_settles E (Relay_publish topic
      (prepareSimpleMessage E Acknowledge
         (MsgAcknowledge \<lparr>ack_result = True, ack_topic = topic, ack_msg_id = msg_id\<rparr>) w)
      (String pubKey)) w = Some e
   \<Longrightarrow> fst (acknowledge E topic pubKey msg_id w) = Inl e"
  by (simp add: acknowledge_def op_defs)

lemma pair_ignores_publish:
  "fst (pair E pairingData accounts network w) = Inl e \<Longrightarrow>
   fst (connect E (Some (pd_topic pairingData)) None w) = Inl e \<or> e = TypeError"
  by (auto simp add: pair_def op_defs split: prod.splits sum.splits option.splits)

text \<open>
  C6, as stated, fails: \<open>connect\<close> takes an empty topic for an absent one, so for pairing
  data with the topic \<open>""\<close> the returned state has the topic that \<open>createRandomTopicId\<close> gave.
\<close>

theorem pair_empty_topic:
  "pd_topic (demo_pairingData\<lparr>pd_topic := []\<rparr>) = []
   \<and> fst (pair demo_collaborators (demo_pairingData\<lparr>pd_topic := []\<rparr>) [str ''0.0.123'']
         (str ''testnet'') initialized_world)
       = Inr \<lparr>cs_topic = str ''t1'', cs_expires = 0\<rparr>"
  by (simp add: pair_def connect_def demo_defs op_defs str_def)

text \<open>
  C6, amended. On a session that \<open>init\<close> has given its metadata, with a \<open>url\<close> in it, for
  pairing data whose topic is neither empty nor \<open>__proto__\<close>, and when the relay's \<open>subscribe\<close>
  fulfils: \<open>pair\<close> returns a state with the topic of the pairing data, the registry then
  gives the pairing data's public key for that topic, and after the \<open>subscribe\<close> one
  \<open>publish\<close> was called on that topic, with the ApprovePairing envelope made from the
  sanitized local metadata, the accounts and the sanitized network.
\<close>

theorem pair_registers_and_publishes:
  assumes "this_metadata w = Some r" and "url (metadata_store w r) = Some u"
    and "pd_topic pairingData \<noteq> []" and "pd_topic pairingData \<noteq> str ''__proto__''"
    and "relay_settles E (Relay_subscribe (pd_topic pairingData)) w = None"
  shows "fst (pair E pairingData accounts network w)
           = Inr \<lparr>cs_topic = pd_topic pairingData, cs_expires = 0\<rparr>
    \<and> (let w' = snd (pair E pairingData accounts network w)
       in Get (publicKeys w') (pd_topic pairingData)
            = optional (publicKey (pd_metadata pairingData))
        \<and> metadata_store w' r
            = (metadata_store w r)\<lparr>description := sanitizeString (description (metadata_store w r)),
                 name := sanitizeString (name (metadata_store w r)),
                 url := Some (sanitizeString u)\<rparr>
        \<and> relay_calls w' = relay_calls w @
            [Relay_subscribe (pd_topic pairingData),
             Relay_publish (pd_topic pairingData)
               (prepareSimpleMessage E ApprovePairing
                  (MsgApprovePairing
                     \<lparr>ap_metadata = metadata_store w' r, ap_topic = pd_topic pairingData,
                      ap_accountIds = accounts, ap_network = sanitizeString network\<rparr>)
                  (w'\<lparr>relay_calls := relay_calls w @ [Relay_subscribe (pd_topic pairingData)]\<rparr>))
               (optional (publicKey (pd_metadata pairingData)))])"
  using assms
  by (simp add: pair_def connect_def op_defs Get_def Set_def world_update_order)

theorem pair_registers_and_publishes_witness:
  "this_metadata initialized_world = Some 0
   \<and> url (metadata_store initialized_world 0) = Some (str ''https://dapp.example'')
   \<and> pd_topic demo_pairingData \<noteq> [] \<and> pd_topic demo_pairingData \<noteq> str ''__proto__''
   \<and> relay_settles demo_collaborators (Relay_subscribe (pd_topic demo_pairingData))
        initialized_world = None
   \<and> fst (pair demo_collaborators demo_pairingData [str ''0.0.123''] (str ''testnet'')
        initialized_world) = Inr \<lparr>cs_topic = str ''t9'', cs_expires = 0\<rparr>
   \<and> Get (publicKeys (snd (pair demo_collaborators demo_pairingData [str ''0.0.123'']
        (str ''testnet'') initialized_world))) (str ''t9'') = String (str ''cHVi'')"
proof -
  have a: "this_metadata initialized_world = Some 0"
    by (simp add: demo_defs)
  have b: "url (metadata_store initialized_world 0) = Some (str ''https://dapp.example'')"
    by (simp add: demo_defs)
  have c: "pd_topic demo_pairingData \<noteq> []"
    by (simp add: demo_defs str_def)
  have d: "pd_topic demo_pairingData \<noteq> str ''__proto__''"
    by (simp add: demo_defs str_def)
  have e: "relay_settles demo_collaborators (Relay_subscribe (pd_topic demo_pairingData))
        initialized_world = None"
    by (simp add: demo_defs)
  have t: "pd_topic demo_pairingData = str ''t9''"
    and k: "publicKey (pd_metadata demo_pairingData) = Some (str ''cHVi'')"
    by (simp_all add: demo_defs)
  show ?thesis
    using pair_registers_and_publishes [OF a b c d e, of "[str ''0.0.123'']" "str ''testnet''"]
      a b c d e
    by (simp add: t k Let_def optional_def)
qed

text \<open>
  Where the hypotheses fail: the registry ignores an assignment to \<open>__proto__\<close>, and \<open>pair\<close>
  throws when the local metadata has no \<open>url\<close> or when \<open>init\<close> was not called.
\<close>

lemma pair_proto_topic:
  "Get (publicKeys (snd (pair demo_collaborators (demo_pairingData\<lparr>pd_topic := str ''__proto__''\<rparr>)
      [str ''0.0.123''] (str ''testnet'') initialized_world))) (str ''__proto__'')
     = Builtin (str ''__proto__'')"
  by (simp add: pair_def connect_def demo_defs op_defs Get_def Set_def Object_prototype_keys_def
      str_def)

lemma pair_without_url:
  "fst (pair demo_collaborators demo_pairingData [str ''0.0.123''] (str ''testnet'')
      (update_metadata 0 (\<lambda>m. m\<lparr>url := None\<rparr>) initialized_world)) = Inl TypeError"
  by (simp add: pair_def connect_def demo_defs op_defs str_def)

lemma pair_before_init:
  "fst (pair demo_collaborators demo_pairingData [str ''0.0.123''] (str ''testnet'') demo_world)
     = Inl TypeError"
  by (simp add: pair_def connect_def demo_defs op_defs str_def)

text \<open>
  C7. \<open>acknowledge(topic, pubKey, msg_id)\<close> calls \<open>publish\<close> once, on \<open>topic\<close>, with the
  Acknowledge envelope of the body \<open>{result: true, topic, msg_id}\<close> and with the argument
  \<open>pubKey\<close> as the key. The registry is neither read nor written, so it may have no key for
  the topic.
\<close>

theorem acknowledge_publishes:
  "relay_calls (snd (acknowledge E topic pubKey msg_id w))
     = relay_calls w @
       [Relay_publish topic
          (prepareSimpleMessage E Acknowledge
             (MsgAcknowledge \<lparr>ack_result = True, ack_topic = topic, ack_msg_id = msg_id\<rparr>) w)
          (String pubKey)]
   \<and> publicKeys (snd (acknowledge E topic pubKey msg_id w)) = publicKeys w"
  by (simp add: acknowledge_def op_defs split: option.splits)

theorem acknowledge_publishes_witness:
  "publicKeys demo_world (str ''t1'') = None
   \<and> relay_calls (snd (acknowledge demo_collaborators (str ''t1'') (str ''cHVi'') (str ''m7'')
        demo_world))
     = [Relay_publish (str ''t1'')
          \<lparr>id' = str ''id1'', \<dots> = (Acknowledge,
             MsgAcknowledge \<lparr>ack_result = True, ack_topic = str ''t1'', ack_msg_id = str ''m7''\<rparr>)\<rparr>
          (String (str ''cHVi''))]"
  using acknowledge_publishes [of demo_collaborators "str ''t1''" "str ''cHVi''" "str ''m7''"
      demo_world]
  by (simp add: demo_defs)

text \<open>
  C9. \<open>sendTransaction\<close> writes to the caller's transaction object: after the call its
  \<open>byteArray\<close> is the base64 text of what it held, and the envelope is made from the object
  so changed. A second call with the same object encodes the UTF-8 bytes of that text.
\<close>

theorem sendTransaction_mutates:
  "tx_byteArray (transaction_store (snd (sendTransaction E topic tx w)) tx)
     = Text (Buffer_toString_base64 (Buffer_from (tx_byteArray (transaction_store w tx))))
   \<and> relay_calls (snd (sendTransaction E topic tx w))
     = relay_calls w @
       [Relay_publish topic
          (prepareSimpleMessage E Transaction
             (MsgTransaction (transaction_store (snd (sendTransaction E topic tx w)) tx))
             ((snd (sendTransaction E topic tx w))\<lparr>relay_calls := relay_calls w\<rparr>))
          (Get (publicKeys w) topic)]
   \<and> tx_byteArray (transaction_store
        (snd (sendTransaction E topic2 tx (snd (sendTransaction E topic tx w)))) tx)
     = Text (Buffer_toString_base64 (Buffer_from_string
         (Buffer_toString_base64 (Buffer_from (tx_byteArray (transaction_store w tx))))))"
  by (simp add: sendTransaction_def op_defs Buffer_from_def split: option.splits prod.splits)

theorem sendTransaction_mutates_witness:
  "tx_byteArray (transaction_store demo_world 0) = Uint8Array [1, 2, 3]
   \<and> tx_byteArray (transaction_store
        (snd (sendTransaction demo_collaborators (str ''t1'') 0 demo_world)) 0)
      = Text (str ''AQID'')
   \<and> tx_byteArray (transaction_store
        (snd (sendTransaction demo_collaborators (str ''t1'') 0
           (snd (sendTransaction demo_collaborators (str ''t1'') 0 demo_world)))) 0)
      = Text (str ''QVFJRA=='')"
  using sendTransaction_mutates [of demo_collaborators "str ''t1''" 0 demo_world "str ''t1''"]
  by (simp add: demo_defs Buffer_from_def base64_char_def str_def is_lead_def is_trail_def
      utf8_bytes_def)

text \<open>
  C10. When \<open>window\<close> is a window and the key derivation returns, \<open>init\<close> leaves the caller's
  metadata object with the derived public key and with \<open>window.location.origin\<close> as \<open>url\<close>,
  whatever \<open>url\<close> the caller had put there and however the relay's \<open>init\<close> settles.
\<close>

theorem init_overwrites_url:
  assumes "window E = Window origin"
    and "privateKey (snd (init E metadata privKey w)) = Some key"
    and "getPublicKey E (Buffer_from_base64 key) = Inr pub"
  shows "metadata_store (snd (init E metadata privKey w)) metadata
     = (metadata_store w metadata)\<lparr>publicKey := Some (Buffer_toString_base64 pub),
          url := Some origin\<rparr>"
  using assms
  by (auto simp add: init_def op_defs split: option.splits prod.splits sum.splits if_splits)

theorem init_overwrites_url_witness:
  "window demo_collaborators = Window (str ''https://dapp.example'')
   \<and> privateKey (snd (init demo_collaborators 0 None demo_world)) = Some (str ''BwcH'')
   \<and> getPublicKey demo_collaborators (Buffer_from_base64 (str ''BwcH'')) = Inr [7, 7, 7]
   \<and> url (metadata_store demo_world 0) = Some (str ''https://old.example'')
   \<and> metadata_store (snd (init demo_collaborators 0 None demo_world)) 0
      = demo_metadata\<lparr>publicKey := Some (str ''BwcH''), url := Some (str ''https://dapp.example'')\<rparr>"
proof -
  have k: "privateKey (snd (init demo_collaborators 0 None demo_world)) = Some (str ''BwcH'')"
    by (simp add: init_def demo_defs op_defs generateEncryptionKeys_def base64_char_def str_def
        Buffer_from_base64_def base64_sextets_def unbase64_def low_byte_def List.map_filter_def)
  have p: "getPublicKey demo_collaborators (Buffer_from_base64 (str ''BwcH'')) = Inr [7, 7, 7]"
    by (simp add: demo_defs Buffer_from_base64_def base64_sextets_def unbase64_def low_byte_def
        List.map_filter_def str_def)
  have w: "window demo_collaborators = Window (str ''https://dapp.example'')"
    by (simp add: demo_defs)
  show ?thesis
    using init_overwrites_url [OF w k p] k p w
    by (simp add: demo_defs base64_char_def str_def)
qed

text \<open>
  What \<open>pair\<close> and \<open>generatePairingString\<close> need of the session, \<open>init\<close> provides when it
  returns in a page: the metadata is set and has a \<open>url\<close>.
\<close>

lemma init_initializes:
  assumes "window E = Window origin" and "fst (init E metadata privKey w) = Inr initData"
  shows "this_metadata (snd (init E metadata privKey w)) = Some metadata"
    and "url (metadata_store (snd (init E metadata privKey w)) metadata) = Some origin"
  using assms
  by (auto simp add: init_def op_defs split: option.splits prod.splits sum.splits if_splits)

text \<open>
  \<open>init\<close> creates \<open>publicKey\<close> before \<open>url\<close>: on a metadata object that has neither, the
  properties are then in the order \<open>name\<close>, \<open>description\<close>, \<open>icon\<close>, \<open>publicKey\<close>, \<open>url\<close>,
  which is the order in which \<open>generatePairingString\<close> writes them.
\<close>

lemma init_property_order:
  assumes "window E = Window origin"
    and "privateKey (snd (init E metadata privKey w)) = Some key"
    and "getPublicKey E (Buffer_from_base64 key) = Inr pub"
  shows "metadata_keys (snd (init E metadata privKey w)) metadata
     = assign_key (str ''url'') (assign_key (str ''publicKey'') (metadata_keys w metadata))"
  using assms
  by (auto simp add: init_def op_defs split: option.splits prod.splits sum.splits if_splits)

lemma init_property_order_example:
  "assign_key (str ''url'') (assign_key (str ''publicKey'') (map str [''name'', ''description'', ''icon'']))
     = map str [''name'', ''description'', ''icon'', ''publicKey'', ''url'']"
  by (simp add: assign_key_def str_def)


section \<open>Base64 text decodes to the bytes it encodes\<close>

lemma unat_byte_less: "unat (b :: byte) < 256"
  using unsigned_less [of b, where ?'a = nat] by simp

lemma unat_unit_less: "unat (c :: code_unit) < 65536"
  using unsigned_less [of c, where ?'a = nat] by simp

lemma unat_of_nat_byte: "n < 256 \<Longrightarrow> unat (of_nat n :: byte) = n"
  by (simp add: unat_of_nat)

lemma unat_of_nat_unit: "n < 65536 \<Longrightarrow> unat (of_nat n :: code_unit) = n"
  by (simp add: unat_of_nat)

lemma unat_base64_char:
  "i < 64 \<Longrightarrow> unat (base64_char i) =
     (if i < 26 then 65 + i else if i < 52 then 71 + i else if i < 62 then i - 4
      else if i = 62 then 43 else 47)"
  by (simp add: base64_char_def unat_of_nat_unit del: of_nat_add of_nat_diff)

lemma low_byte_base64_char:
  "i < 64 \<Longrightarrow> low_byte (base64_char i) =
     (if i < 26 then 65 + i else if i < 52 then 71 + i else if i < 62 then i - 4
      else if i = 62 then 43 else 47)"
  by (simp add: low_byte_def unat_base64_char)

lemma unbase64_base64_char:
  assumes "i < 64"
  shows "unbase64 (base64_char i) = Some i"
proof -
  consider "i < 26" | "26 \<le> i \<and> i < 52" | "52 \<le> i \<and> i < 62" | "i = 62" | "i = 63"
    using assms by linarith
  then show ?thesis
  proof cases
    case 3
    then have u: "low_byte (base64_char i) = i - 4"
      by (simp add: low_byte_base64_char)
    from 3 have "48 \<le> i - 4" and "i - 4 \<le> 57" and "i - 4 + 4 = i"
      by arith+
    then show ?thesis
      by (simp add: unbase64_def Let_def u)
  qed (simp_all add: unbase64_def low_byte_base64_char Let_def)
qed

lemma base64_char_not_pad:
  assumes "i < 64"
  shows "low_byte (base64_char i) \<noteq> 0x3D"
proof
  assume p: "low_byte (base64_char i) = 0x3D"
  have "unbase64 (base64_char i) = None"
    by (simp add: unbase64_def Let_def p)
  then show False
    using unbase64_base64_char [OF assms] by simp
qed

lemma base64_sextets_Cons:
  "i < 64 \<Longrightarrow> base64_sextets (base64_char i # s) = i # base64_sextets s"
  by (simp add: base64_sextets_def base64_char_not_pad unbase64_base64_char List.map_filter_simps)

lemma base64_sextets_pad: "base64_sextets (0x3D # s) = []"
  by (simp add: base64_sextets_def low_byte_def List.map_filter_simps)

lemma base64_sextets_Nil: "base64_sextets [] = []"
  by (simp add: base64_sextets_def List.map_filter_simps)


lemma div_of_group: "s < n \<Longrightarrow> (r * n + s) div n = (r :: nat)"
  by simp

lemma mod_of_group: "s < n \<Longrightarrow> (r * n + s) mod n = (s :: nat)"
  by simp

lemma group_less: "r < k \<Longrightarrow> s < n \<Longrightarrow> r * n + s < k * (n :: nat)"
proof -
  assume "r < k" and "s < n"
  then have "r * n + s < r * n + n" by simp
  also have "\<dots> = Suc r * n" by simp
  also have "\<dots> \<le> k * n" using \<open>r < k\<close> by (intro mult_le_mono1) simp
  finally show ?thesis .
qed

lemma byte_parts:
  fixes b :: byte
  shows "unat b div 4 < 64" and "unat b div 16 < 16" and "unat b div 64 < 4"
  using unat_byte_less [of b] by (simp_all add: less_mult_imp_div_less)

lemma sextet_bounds:
  fixes a b c :: byte
  shows "unat a div 4 < 64" and "unat a mod 4 * 16 + unat b div 16 < 64"
    and "unat a mod 4 * 16 < 64"
    and "unat b mod 16 * 4 + unat c div 64 < 64" and "unat b mod 16 * 4 < 64"
    and "unat c mod 64 < 64"
proof -
  show "unat a div 4 < 64" by (rule byte_parts)
  show "unat a mod 4 * 16 + unat b div 16 < 64"
    using group_less [of "unat a mod 4" 4 "unat b div 16" 16] byte_parts [of b] by simp
  show "unat a mod 4 * 16 < 64"
    using group_less [of "unat a mod 4" 4 0 16] by simp
  show "unat b mod 16 * 4 + unat c div 64 < 64"
    using group_less [of "unat b mod 16" 16 "unat c div 64" 4] byte_parts [of c] by simp
  show "unat b mod 16 * 4 < 64"
    using group_less [of "unat b mod 16" 16 0 4] by simp
  show "unat c mod 64 < 64" by simp
qed

lemma regroup_first:
  fixes a b :: byte
  shows "unat a div 4 * 4 + (unat a mod 4 * 16 + unat b div 16) div 16 = unat a"
  by (simp add: div_of_group byte_parts)

lemma regroup_second:
  fixes a b c :: byte
  shows "(unat a mod 4 * 16 + unat b div 16) mod 16 * 16
           + (unat b mod 16 * 4 + unat c div 64) div 4 = unat b"
  by (simp add: div_of_group mod_of_group byte_parts)

lemma regroup_third:
  fixes b c :: byte
  shows "(unat b mod 16 * 4 + unat c div 64) mod 4 * 64 + unat c mod 64 = unat c"
  by (simp add: mod_of_group byte_parts)

lemma regroup_first_end:
  fixes a :: byte
  shows "unat a div 4 * 4 + (unat a mod 4 * 16) div 16 = unat a"
  by simp

lemma regroup_second_end:
  fixes a b :: byte
  shows "(unat a mod 4 * 16 + unat b div 16) mod 16 * 16 + (unat b mod 16 * 4) div 4 = unat b"
  by (simp add: mod_of_group byte_parts)

lemma base64_roundtrip: "Buffer_from_base64 (Buffer_toString_base64 bs) = bs"
proof -
  have "sextets_to_bytes (base64_sextets (Buffer_toString_base64 bs)) = bs"
  proof (induction bs rule: Buffer_toString_base64.induct)
    case 1
    show ?case by (simp add: base64_sextets_Nil)
  next
    case (2 a)
    show ?case
      by (simp add: base64_sextets_Cons base64_sextets_pad sextet_bounds regroup_first_end
          del: of_nat_add of_nat_mult)
  next
    case (3 a b)
    show ?case
      by (simp add: base64_sextets_Cons base64_sextets_pad sextet_bounds regroup_first
          regroup_second_end byte_parts del: of_nat_add of_nat_mult)
  next
    case (4 a b c bs)
    then show ?case
      by (simp add: base64_sextets_Cons sextet_bounds regroup_first regroup_second regroup_third
          byte_parts del: of_nat_add of_nat_mult)
  qed
  then show ?thesis by (simp add: Buffer_from_base64_def)
qed

section \<open>UTF-8 bytes decode to the string they encode\<close>

lemma utf8_decode_1:
  assumes "cp < 0x80"
  shows "utf8_decode Start (utf8_bytes cp @ bs) = utf16_units cp @ utf8_decode Start bs"
proof -
  have u: "unat (of_nat cp :: byte) = cp"
    using assms by (simp add: unat_of_nat_byte)
  show ?thesis
    using assms by (simp add: utf8_bytes_def utf16_units_def utf8_first_def u Let_def)
qed

lemma split_64: "(n :: nat) = n div 64 * 64 + n mod 64"
  by simp

lemma utf8_decode_2:
  assumes "0x80 \<le> cp" and "cp < 0x800"
  shows "utf8_decode Start (utf8_bytes cp @ bs) = utf16_units cp @ utf8_decode Start bs"
proof -
  define q1 where "q1 = cp div 64"
  define d0 where "d0 = cp mod 64"
  have cp: "cp = q1 * 64 + d0" and d0: "d0 < 64"
    by (simp_all add: q1_def d0_def)
  have q1: "2 \<le> q1" "q1 < 32"
    using assms cp d0 by arith+
  have bytes: "utf8_bytes cp = [of_nat (0xC0 + q1), of_nat (0x80 + d0)]"
    using assms by (simp add: utf8_bytes_def q1_def d0_def del: of_nat_add)
  have u0: "unat (of_nat (0xC0 + q1) :: byte) = 0xC0 + q1"
    using q1 by (simp add: unat_of_nat_byte del: of_nat_add)
  have u1: "unat (of_nat (0x80 + d0) :: byte) = 0x80 + d0"
    using d0 by (simp add: unat_of_nat_byte del: of_nat_add)
  have first: "utf8_first (of_nat (0xC0 + q1)) = ([], Pending q1 1 0x80 0xBF)"
    using q1 by (simp add: utf8_first_def u0 Let_def del: of_nat_add)
  show ?thesis
    unfolding bytes
    using d0 by (simp add: first u1 cp del: of_nat_add)
qed


lemma utf8_decode_3:
  assumes "0x800 \<le> cp" and "cp < 0x10000" and "\<not> (0xD800 \<le> cp \<and> cp \<le> 0xDFFF)"
  shows "utf8_decode Start (utf8_bytes cp @ bs) = utf16_units cp @ utf8_decode Start bs"
proof -
  define q1 where "q1 = cp div 64"
  define d0 where "d0 = cp mod 64"
  define q2 where "q2 = q1 div 64"
  define d1 where "d1 = q1 mod 64"
  have cp: "cp = q1 * 64 + d0" and d0: "d0 < 64"
    by (simp_all add: q1_def d0_def)
  have q1: "q1 = q2 * 64 + d1" and d1: "d1 < 64"
    by (simp_all add: q2_def d1_def)
  have dv: "cp div 4096 = q2"
    by (simp add: q2_def q1_def div_mult2_eq [symmetric])
  have q2: "q2 < 16"
    using assms cp q1 d0 d1 by arith
  have lo: "q2 = 0 \<Longrightarrow> 0x20 \<le> d1"
    using assms cp q1 d0 d1 by arith
  have hi: "q2 = 13 \<Longrightarrow> d1 < 0x20"
    using assms cp q1 d0 d1 by arith
  have bytes: "utf8_bytes cp = [of_nat (0xE0 + q2), of_nat (0x80 + d1), of_nat (0x80 + d0)]"
    using assms by (simp add: utf8_bytes_def dv del: of_nat_add) (simp add: q1_def d0_def d1_def)
  have u0: "unat (of_nat (0xE0 + q2) :: byte) = 0xE0 + q2"
    using q2 by (simp add: unat_of_nat_byte del: of_nat_add)
  have u1: "unat (of_nat (0x80 + d1) :: byte) = 0x80 + d1"
    using d1 by (simp add: unat_of_nat_byte del: of_nat_add)
  have u2: "unat (of_nat (0x80 + d0) :: byte) = 0x80 + d0"
    using d0 by (simp add: unat_of_nat_byte del: of_nat_add)
  have first: "utf8_first (of_nat (0xE0 + q2))
      = ([], Pending q2 2 (if q2 = 0 then 0xA0 else 0x80) (if q2 = 13 then 0x9F else 0xBF))"
    using q2 by (simp add: utf8_first_def u0 Let_def del: of_nat_add)
  have within: "(if q2 = 0 then 0xA0 else 0x80) \<le> 0x80 + d1"
    "0x80 + d1 \<le> (if q2 = 13 then 0x9F else 0xBF)"
    using lo hi d1 by auto
  show ?thesis
    unfolding bytes
    using d0 within by (simp add: first u1 u2 del: of_nat_add) (simp add: cp q1)
qed

lemma utf8_decode_4:
  assumes "0x10000 \<le> cp" and "cp < 0x110000"
  shows "utf8_decode Start (utf8_bytes cp @ bs) = utf16_units cp @ utf8_decode Start bs"
proof -
  define q1 where "q1 = cp div 64"
  define d0 where "d0 = cp mod 64"
  define q2 where "q2 = q1 div 64"
  define d1 where "d1 = q1 mod 64"
  define q3 where "q3 = q2 div 64"
  define d2 where "d2 = q2 mod 64"
  have cp: "cp = q1 * 64 + d0" and d0: "d0 < 64"
    by (simp_all add: q1_def d0_def)
  have q1: "q1 = q2 * 64 + d1" and d1: "d1 < 64"
    by (simp_all add: q2_def d1_def)
  have q2: "q2 = q3 * 64 + d2" and d2: "d2 < 64"
    by (simp_all add: q3_def d2_def)
  have div2: "cp div 4096 = q2"
    by (simp add: q2_def q1_def div_mult2_eq [symmetric])
  have div3: "cp div 262144 = q3"
    by (simp add: q3_def q2_def q1_def div_mult2_eq [symmetric])
  have q3: "q3 < 5"
    using assms cp q1 q2 d0 d1 d2 by arith
  have lo: "q3 = 0 \<Longrightarrow> 0x10 \<le> d2"
    using assms cp q1 q2 d0 d1 d2 by arith
  have hi: "q3 = 4 \<Longrightarrow> d2 < 0x10"
    using assms cp q1 q2 d0 d1 d2 by arith
  have bytes: "utf8_bytes cp
      = [of_nat (0xF0 + q3), of_nat (0x80 + d2), of_nat (0x80 + d1), of_nat (0x80 + d0)]"
    using assms by (simp add: utf8_bytes_def div2 div3 del: of_nat_add)
      (simp add: q1_def d0_def d1_def d2_def)
  have u0: "unat (of_nat (0xF0 + q3) :: byte) = 0xF0 + q3"
    using q3 by (simp add: unat_of_nat_byte del: of_nat_add)
  have u1: "unat (of_nat (0x80 + d2) :: byte) = 0x80 + d2"
    using d2 by (simp add: unat_of_nat_byte del: of_nat_add)
  have u2: "unat (of_nat (0x80 + d1) :: byte) = 0x80 + d1"
    using d1 by (simp add: unat_of_nat_byte del: of_nat_add)
  have u3: "unat (of_nat (0x80 + d0) :: byte) = 0x80 + d0"
    using d0 by (simp add: unat_of_nat_byte del: of_nat_add)
  have first: "utf8_first (of_nat (0xF0 + q3))
      = ([], Pending q3 3 (if q3 = 0 then 0x90 else 0x80) (if q3 = 4 then 0x8F else 0xBF))"
    using q3 by (simp add: utf8_first_def u0 Let_def del: of_nat_add)
  have within: "(if q3 = 0 then 0x90 else 0x80) \<le> 0x80 + d2"
    "0x80 + d2 \<le> (if q3 = 4 then 0x8F else 0xBF)"
    using lo hi d2 by auto
  show ?thesis
    unfolding bytes
    using d0 d1 within by (simp add: first u1 u2 u3 del: of_nat_add) (simp add: cp q1 q2)
qed

lemma utf8_decode_scalar:
  assumes "cp < 0x110000" and "\<not> (0xD800 \<le> cp \<and> cp \<le> 0xDFFF)"
  shows "utf8_decode Start (utf8_bytes cp @ bs) = utf16_units cp @ utf8_decode Start bs"
proof -
  consider "cp < 0x80" | "0x80 \<le> cp \<and> cp < 0x800" | "0x800 \<le> cp \<and> cp < 0x10000"
    | "0x10000 \<le> cp"
    by linarith
  then show ?thesis
    using assms by cases (simp_all add: utf8_decode_1 utf8_decode_2 utf8_decode_3 utf8_decode_4)
qed


lemma is_lead_unat: "is_lead c \<longleftrightarrow> 0xD800 \<le> unat c \<and> unat c \<le> 0xDBFF"
  by (simp add: is_lead_def word_le_nat_alt)

lemma is_trail_unat: "is_trail c \<longleftrightarrow> 0xDC00 \<le> unat c \<and> unat c \<le> 0xDFFF"
  by (simp add: is_trail_def word_le_nat_alt)

lemma code_point_range:
  assumes "is_lead c" and "is_trail d"
  shows "0x10000 \<le> code_point c d" and "code_point c d < 0x110000"
proof -
  define h where "h = unat c - 0xD800"
  define l where "l = unat d - 0xDC00"
  have "h < 0x400" and "l < 0x400"
    using assms by (auto simp add: h_def l_def is_lead_unat is_trail_unat)
  then have "h * 0x400 + l < 0x400 * 0x400"
    by (rule group_less)
  then show "0x10000 \<le> code_point c d" and "code_point c d < 0x110000"
    by (simp_all add: code_point_def h_def l_def)
qed

lemma utf16_units_code_point:
  assumes "is_lead c" and "is_trail d"
  shows "utf16_units (code_point c d) = [c, d]"
proof -
  define h where "h = unat c - 0xD800"
  define l where "l = unat d - 0xDC00"
  have l: "l < 0x400"
    using assms by (auto simp add: l_def is_trail_unat)
  have c: "0xD800 + h = unat c" and d: "0xDC00 + l = unat d"
    using assms by (auto simp add: h_def l_def is_lead_unat is_trail_unat)
  have cp: "code_point c d = 0x10000 + (h * 0x400 + l)"
    by (simp add: code_point_def h_def l_def)
  have "utf16_units (code_point c d) = [of_nat (0xD800 + h), of_nat (0xDC00 + l)]"
    unfolding cp utf16_units_def using l
    by (simp add: div_of_group mod_of_group del: of_nat_add)
  then show ?thesis
    by (simp only: c d) simp
qed

lemma utf16_units_unit: "utf16_units (unat (c :: code_unit)) = [c]"
  using unat_unit_less [of c] by (simp add: utf16_units_def)

lemma utf8_roundtrip:
  "well_formed s \<Longrightarrow>
   utf8_decode Start (Buffer_from_string s @ bs) = s @ utf8_decode Start bs"
proof (induction s rule: Buffer_from_string.induct)
  case 1
  show ?case by simp
next
  case (2 c s)
  show ?case
  proof (cases "is_lead c")
    case True
    with "2.prems" obtain d s' where s: "s = d # s'" and d: "is_trail d" and wf: "well_formed s'"
      by (cases s) auto
    have "utf8_decode Start (utf8_bytes (code_point c d) @ Buffer_from_string s' @ bs)
        = [c, d] @ utf8_decode Start (Buffer_from_string s' @ bs)"
      using code_point_range [OF True d] utf16_units_code_point [OF True d]
      by (simp add: utf8_decode_4)
    with "2.IH"(1) [OF True s d wf] True d s show ?thesis
      by simp
  next
    case False
    with "2.prems" have t: "\<not> is_trail c" and wf: "well_formed s"
      by auto
    have "utf8_decode Start (utf8_bytes (unat c) @ Buffer_from_string s @ bs)
        = [c] @ utf8_decode Start (Buffer_from_string s @ bs)"
      using False t unat_unit_less [of c] utf16_units_unit [of c]
      by (subst utf8_decode_scalar) (auto simp add: is_lead_unat is_trail_unat)
    with "2.IH"(4) [OF False t wf] False t show ?thesis
      by simp
  qed
qed

lemma Buffer_toString_from_string: "well_formed s \<Longrightarrow> Buffer_toString (Buffer_from_string s) = s"
  using utf8_roundtrip [of s "[]"] by (simp add: Buffer_toString_def)

section \<open>The JSON text of a value parses to the value\<close>

lemma unat_hex_digit: "n < 16 \<Longrightarrow> unat (hex_digit n) = (if n < 10 then 48 + n else 87 + n)"
  by (simp add: hex_digit_def unat_of_nat_unit del: of_nat_add)

lemma hex_value_hex_digit: "n < 16 \<Longrightarrow> hex_value (hex_digit n) = Some n"
  by (simp add: hex_value_def unat_hex_digit Let_def)

lemma split_hex:
  "(n :: nat) = 4096 * (n div 4096) + 256 * (n div 256 mod 16) + 16 * (n div 16 mod 16) + n mod 16"
proof -
  define q1 where "q1 = n div 16"
  define q2 where "q2 = q1 div 16"
  define q3 where "q3 = q2 div 16"
  have n: "n = q1 * 16 + n mod 16" and q1: "q1 = q2 * 16 + q1 mod 16"
    and q2: "q2 = q3 * 16 + q2 mod 16"
    by (simp_all add: q1_def q2_def q3_def)
  have d2: "n div 256 = q2" and d3: "n div 4096 = q3"
    by (simp_all add: q3_def q2_def q1_def div_mult2_eq [symmetric])
  have "n = 4096 * q3 + 256 * (q2 mod 16) + 16 * (q1 mod 16) + n mod 16"
    using n q1 q2 by arith
  then show ?thesis
    by (simp only: d2 d3 q1_def [symmetric])
qed

lemma hex4_unicode_escape:
  "hex4 (hex_digit (unat c div 4096)) (hex_digit (unat c div 256 mod 16))
     (hex_digit (unat c div 16 mod 16)) (hex_digit (unat c mod 16)) = Some c"
proof -
  have "unat c div 4096 < 16"
    using unat_unit_less [of c] by (simp add: less_mult_imp_div_less)
  then show ?thesis
    using split_hex [of "unat c"]
    by (simp add: hex4_def hex_value_hex_digit del: of_nat_add of_nat_mult)
qed


lemma cons_result_Some: "cons_result x (Some (xs, rest)) = Some (x # xs, rest)"
  by (simp add: cons_result_def)

lemma surrogate_literal:
  assumes "is_lead c \<or> is_trail c"
  shows "c \<noteq> 0x22" and "c \<noteq> 0x5C" and "\<not> c < 0x20"
  using assms by (auto simp add: is_lead_unat is_trail_unat word_less_nat_alt)

lemma string_body_literal:
  "c \<noteq> 0x22 \<Longrightarrow> c \<noteq> 0x5C \<Longrightarrow> \<not> c < 0x20
   \<Longrightarrow> string_body (c # t) = cons_result c (string_body t)"
  by simp

lemma string_body_quote: "string_body (0x22 # rest) = Some ([], rest)"
  by simp

lemma string_body_unicode_escape:
  "string_body (unicode_escape c @ t) = cons_result c (string_body t)"
  by (simp add: unicode_escape_def hex4_unicode_escape)

lemma string_body_quote_unit: "string_body (quote_unit c @ t) = cons_result c (string_body t)"
proof -
  consider "c = 0x08" | "c = 0x09" | "c = 0x0A" | "c = 0x0C" | "c = 0x0D" | "c = 0x22"
    | "c = 0x5C"
    | "c \<notin> {0x08, 0x09, 0x0A, 0x0C, 0x0D, 0x22, 0x5C}" "c < 0x20 \<or> is_lead c \<or> is_trail c"
    | "c \<notin> {0x08, 0x09, 0x0A, 0x0C, 0x0D, 0x22, 0x5C}" "\<not> (c < 0x20 \<or> is_lead c \<or> is_trail c)"
    by blast
  then show ?thesis
  proof cases
    case 8
    then have "quote_unit c = unicode_escape c"
      by (simp add: quote_unit_def)
    then show ?thesis
      by (simp only: string_body_unicode_escape)
  next
    case 9
    then have "quote_unit c = [c]"
      by (simp add: quote_unit_def)
    with 9 show ?thesis
      by simp
  qed (simp_all add: quote_unit_def escaped_def)
qed

lemma string_body_quote_units:
  "string_body (quote_units s @ 0x22 # rest) = Some (s, rest)"
proof (induction s rule: quote_units.induct)
  case 1
  show ?case by simp
next
  case (2 c s)
  show ?case
  proof (cases "is_lead c")
    case lead: True
    show ?thesis
    proof (cases s)
      case Nil
      then show ?thesis
        using lead by (simp add: string_body_quote_unit string_body_quote cons_result_Some del: string_body.simps(2))
    next
      case (Cons d s')
      show ?thesis
      proof (cases "is_trail d")
        case True
        have c: "c \<noteq> 0x22" "c \<noteq> 0x5C" "\<not> c < 0x20"
          using surrogate_literal [of c] lead by simp_all
        have d: "d \<noteq> 0x22" "d \<noteq> 0x5C" "\<not> d < 0x20"
          using surrogate_literal [of d] True by simp_all
        have "string_body (c # d # quote_units s' @ 0x22 # rest)
            = cons_result c (cons_result d (string_body (quote_units s' @ 0x22 # rest)))"
          by (simp add: string_body_literal c d del: string_body.simps(2))
        with "2.IH"(1) [OF lead Cons True] lead Cons True show ?thesis
          by (simp add: cons_result_Some del: string_body.simps(2))
      next
        case False
        with "2.IH"(2) [OF lead Cons False] lead Cons show ?thesis
          by (simp add: string_body_quote_unit cons_result_Some del: string_body.simps(2))
      qed
    qed
  next
    case False
    with "2.IH"(3) [OF False] show ?thesis
      by (simp add: string_body_quote_unit cons_result_Some del: string_body.simps(2))
  qed
qed

lemma well_formed_plain_append:
  "\<forall>u\<in>set a. \<not> is_lead u \<and> \<not> is_trail u \<Longrightarrow> well_formed (a @ t) = well_formed t"
  by (induction a) simp_all

lemma ascii_not_surrogate: "unat u < 0x80 \<Longrightarrow> \<not> is_lead u \<and> \<not> is_trail u"
  by (simp add: is_lead_unat is_trail_unat)

lemma hex_digit_ascii: "n < 16 \<Longrightarrow> unat (hex_digit n) < 0x80"
  by (simp add: unat_hex_digit)

lemma unicode_escape_plain: "u \<in> set (unicode_escape c) \<Longrightarrow> \<not> is_lead u \<and> \<not> is_trail u"
proof -
  assume u: "u \<in> set (unicode_escape c)"
  have "unat c div 4096 < 16"
    using unat_unit_less [of c] by (simp add: less_mult_imp_div_less)
  then have "\<forall>u\<in>set (unicode_escape c). unat u < 0x80"
    by (simp add: unicode_escape_def hex_digit_ascii)
  with u show ?thesis
    by (simp add: ascii_not_surrogate)
qed

lemma escape_plain: "u \<in> set [0x5C, e] \<Longrightarrow> unat e < 0x80 \<Longrightarrow> \<not> is_lead u \<and> \<not> is_trail u"
  by (auto simp add: is_lead_unat is_trail_unat)

lemma quote_unit_plain:
  assumes "u \<in> set (quote_unit c)"
  shows "\<not> is_lead u \<and> \<not> is_trail u"
proof (cases "quote_unit c = unicode_escape c")
  case True
  with assms show ?thesis
    by (simp add: unicode_escape_plain)
next
  case False
  show ?thesis
  proof (cases "quote_unit c = [c]")
    case True
    with False have "\<not> is_lead c \<and> \<not> is_trail c"
      by (simp add: quote_unit_def split: if_splits)
    with True assms show ?thesis
      by simp
  next
    case single: False
    with False obtain e where "quote_unit c = [0x5C, e]" and "unat e < 0x80"
      by (simp add: quote_unit_def split: if_splits)
    with assms show ?thesis
      using escape_plain [of u e] by simp
  qed
qed

lemma well_formed_quote_units: "well_formed t \<Longrightarrow> well_formed (quote_units s @ t)"
proof (induction s rule: quote_units.induct)
  case 1
  then show ?case by simp
next
  case (2 c s)
  have unit: "well_formed (quote_unit c @ x) = well_formed x" for x
    using quote_unit_plain [of _ c] by (intro well_formed_plain_append) blast
  show ?case
  proof (cases "is_lead c")
    case lead: True
    show ?thesis
    proof (cases s)
      case Nil
      with lead 2 show ?thesis by (simp add: unit del: well_formed.simps(2))
    next
      case (Cons d s')
      with lead 2 show ?thesis
        by (cases "is_trail d") (simp_all add: unit)
    qed
  next
    case False
    with 2 show ?thesis by (simp add: unit)
  qed
qed

lemma well_formed_ascii: "\<forall>u\<in>set a. unat u < 0x80 \<Longrightarrow> well_formed (a @ t) = well_formed t"
  by (intro well_formed_plain_append) (simp add: ascii_not_surrogate)

lemma well_formed_QuoteJSONString: "well_formed t \<Longrightarrow> well_formed (QuoteJSONString s @ t)"
proof -
  assume "well_formed t"
  then have "well_formed ([0x22] @ t)"
    by (subst well_formed_ascii) simp_all
  then have "well_formed (quote_units s @ [0x22] @ t)"
    by (rule well_formed_quote_units)
  then have "well_formed ([0x22] @ quote_units s @ [0x22] @ t)"
    by (subst well_formed_ascii) simp_all
  then show ?thesis
    by (simp add: QuoteJSONString_def)
qed

lemma skip_ws_Cons: "\<not> is_ws c \<Longrightarrow> skip_ws (c # s) = c # s"
  by (simp add: skip_ws_def)

lemma separate_Cons: "xs \<noteq> [] \<Longrightarrow> separate sep (x # xs) = x @ sep @ separate sep xs"
  by (cases xs) simp_all

lemma QuoteJSONString_Cons: "QuoteJSONString s = 0x22 # quote_units s @ [0x22]"
  by (simp add: QuoteJSONString_def)

lemma stringify_first:
  "plain v \<Longrightarrow> \<exists>c t. JSON_stringify v = c # t \<and> \<not> is_ws c \<and> c \<noteq> 0x5D \<and> c \<noteq> 0x7D"
  by (cases v) (simp_all add: str_def QuoteJSONString_def is_ws_def)

lemma skip_ws_stringify: "plain v \<Longrightarrow> skip_ws (JSON_stringify v @ t) = JSON_stringify v @ t"
  using stringify_first [of v] by (auto simp add: skip_ws_Cons)

lemma parse_value_string:
  "parse_value (QuoteJSONString s @ rest) = Some (JString s, rest)"
  by (simp add: QuoteJSONString_def parse_value.simps [of "0x22 # _"] string_body_quote_units)

lemma parse_value_literals:
  "parse_value (str ''null'' @ rest) = Some (JNull, rest)"
  "parse_value (str ''true'' @ rest) = Some (JBool True, rest)"
  "parse_value (str ''false'' @ rest) = Some (JBool False, rest)"
  by (simp_all add: str_def parse_value.simps [of "_ # _"] literal_def)

lemma parse_elements_separate:
  assumes "vs \<noteq> []" and "list_all plain vs"
    and "\<And>v rest. v \<in> set vs \<Longrightarrow> parse_value (JSON_stringify v @ rest) = Some (v, rest)"
  shows "parse_elements (separate (str '','') (map JSON_stringify vs) @ 0x5D # rest)
           = Some (vs, rest)"
  using assms
proof (induction vs rule: list_nonempty_induct)
  case (single v)
  then have "parse_value (skip_ws (JSON_stringify v @ 0x5D # rest)) = Some (v, 0x5D # rest)"
    by (simp add: skip_ws_stringify)
  then show ?case
    by (simp add: parse_elements.simps [of "JSON_stringify v @ _"] skip_ws_Cons is_ws_def)
next
  case (cons v vs)
  define more where "more = separate (str '','') (map JSON_stringify vs) @ 0x5D # rest"
  have whole: "separate (str '','') (map JSON_stringify (v # vs)) @ 0x5D # rest
      = JSON_stringify v @ 0x2C # more"
    using cons.hyps by (simp add: separate_Cons more_def str_def)
  have "parse_value (skip_ws (JSON_stringify v @ 0x2C # more)) = Some (v, 0x2C # more)"
    using cons.prems by (simp add: skip_ws_stringify)
  moreover have "parse_elements more = Some (vs, rest)"
    unfolding more_def using cons.prems by (intro cons.IH) simp_all
  ultimately show ?case
    unfolding whole
    by (simp add: parse_elements.simps [of "JSON_stringify v @ _"] skip_ws_Cons is_ws_def
        cons_result_Some)
qed


lemma parse_members_separate:
  assumes "ms \<noteq> []" and "list_all (\<lambda>m. plain (snd m)) ms"
    and "\<And>m rest. m \<in> set ms \<Longrightarrow>
           parse_value (JSON_stringify (snd m) @ rest) = Some (snd m, rest)"
  shows "parse_members
           (separate (str '','')
              (map (\<lambda>m. QuoteJSONString (fst m) @ str '':'' @ JSON_stringify (snd m)) ms)
            @ 0x7D # rest)
         = Some (ms, rest)"
  using assms
proof (induction ms rule: list_nonempty_induct)
  case (single m)
  have key: "string_body (quote_units (fst m) @ 0x22 # 0x3A # JSON_stringify (snd m) @ 0x7D # rest)
      = Some (fst m, 0x3A # JSON_stringify (snd m) @ 0x7D # rest)"
    by (rule string_body_quote_units)
  have "parse_value (skip_ws (JSON_stringify (snd m) @ 0x7D # rest)) = Some (snd m, 0x7D # rest)"
    using single by (simp add: skip_ws_stringify)
  then show ?case
    by (simp add: parse_members.simps [of "0x22 # _"] QuoteJSONString_def str_def skip_ws_Cons
        is_ws_def key)
next
  case (cons m ms)
  define more where "more = separate (str '','')
      (map (\<lambda>m. QuoteJSONString (fst m) @ str '':'' @ JSON_stringify (snd m)) ms) @ 0x7D # rest"
  have whole: "separate (str '','')
        (map (\<lambda>m. QuoteJSONString (fst m) @ str '':'' @ JSON_stringify (snd m)) (m # ms))
        @ 0x7D # rest
      = 0x22 # quote_units (fst m) @ 0x22 # 0x3A # JSON_stringify (snd m) @ 0x2C # more"
    using cons.hyps by (simp add: separate_Cons more_def str_def QuoteJSONString_def)
  have key: "string_body (quote_units (fst m) @ 0x22 # 0x3A # JSON_stringify (snd m) @ 0x2C # more)
      = Some (fst m, 0x3A # JSON_stringify (snd m) @ 0x2C # more)"
    by (rule string_body_quote_units)
  have "parse_value (skip_ws (JSON_stringify (snd m) @ 0x2C # more)) = Some (snd m, 0x2C # more)"
    using cons.prems by (simp add: skip_ws_stringify)
  moreover have "parse_members more = Some (ms, rest)"
    unfolding more_def using cons.prems by (intro cons.IH) simp_all
  ultimately show ?case
    unfolding whole
    by (simp add: parse_members.simps [of "0x22 # _"] skip_ws_Cons is_ws_def key cons_result_Some)
qed

lemma set_property_new: "k \<notin> fst ` set obj \<Longrightarrow> set_property k v obj = obj @ [(k, v)]"
  by (induction obj) auto

lemma foldl_set_property:
  "distinct (map fst (obj @ ms)) \<Longrightarrow>
   foldl (\<lambda>obj m. set_property (fst m) (snd m) obj) obj ms = obj @ ms"
proof (induction ms arbitrary: obj)
  case Nil
  show ?case by simp
next
  case (Cons m ms)
  from Cons.prems have new: "fst m \<notin> fst ` set obj"
    by auto
  from Cons.prems have "distinct (map fst ((obj @ [m]) @ ms))"
    by simp
  then have "foldl (\<lambda>obj m. set_property (fst m) (snd m) obj) (obj @ [m]) ms = (obj @ [m]) @ ms"
    by (rule Cons.IH)
  then show ?case
    by (simp add: set_property_new [OF new])
qed

lemma object_of_distinct: "distinct (map fst ms) \<Longrightarrow> object_of ms = JObject ms"
  using foldl_set_property [of "[]" ms] by (simp add: object_of_def)

lemma parse_value_stringify:
  "plain v \<Longrightarrow> parse_value (JSON_stringify v @ rest) = Some (v, rest)"
proof (induction v arbitrary: rest)
  case JNull
  show ?case by (simp add: parse_value_literals)
next
  case (JBool b)
  show ?case by (simp add: parse_value_literals)
next
  case (JNumber l)
  then show ?case by simp
next
  case (JString s)
  show ?case by (simp add: parse_value_string)
next
  case (JArray vs)
  show ?case
  proof (cases "vs = []")
    case True
    then show ?thesis
      by (simp add: str_def parse_value.simps [of "0x5B # _"] skip_ws_Cons is_ws_def)
  next
    case False
    from JArray.prems have all: "list_all plain vs"
      by simp
    have ih: "\<And>v rest. v \<in> set vs \<Longrightarrow> parse_value (JSON_stringify v @ rest) = Some (v, rest)"
      using JArray.IH all by (simp add: list_all_iff)
    obtain v vs' where vs: "vs = v # vs'"
      using False by (cases vs) auto
    have "plain v"
      using all vs by simp
    then obtain c t where first: "JSON_stringify v = c # t" "\<not> is_ws c" "c \<noteq> 0x5D"
      using stringify_first by blast
    define body where "body = separate (str '','') (map JSON_stringify vs) @ 0x5D # rest"
    have start: "\<exists>t'. body = c # t'"
      using first vs by (cases vs') (simp_all add: body_def)
    have "parse_elements body = Some (vs, rest)"
      unfolding body_def using False all ih by (rule parse_elements_separate)
    moreover have "JSON_stringify (JArray vs) @ rest = 0x5B # body"
      by (simp add: body_def str_def)
    ultimately show ?thesis
      using start first
      by (auto simp add: parse_value.simps [of "0x5B # _"] skip_ws_Cons)
  qed
next
  case (JObject ms)
  show ?case
  proof (cases "ms = []")
    case True
    then show ?thesis
      by (simp add: str_def parse_value.simps [of "0x7B # _"] skip_ws_Cons is_ws_def)
  next
    case False
    from JObject.prems have all: "list_all (\<lambda>m. plain (snd m)) ms"
      and keys: "distinct (map fst ms)"
      by simp_all
    have ih: "\<And>m rest. m \<in> set ms \<Longrightarrow>
        parse_value (JSON_stringify (snd m) @ rest) = Some (snd m, rest)"
    proof -
      fix m rest
      assume m: "m \<in> set ms"
      then have "plain (snd m)"
        using all by (simp add: list_all_iff)
      moreover have "snd m \<in> Basic_BNFs.snds m"
        by (cases m) simp
      ultimately show "parse_value (JSON_stringify (snd m) @ rest) = Some (snd m, rest)"
        using JObject.IH m by blast
    qed
    define body where "body = separate (str '','')
        (map (\<lambda>m. QuoteJSONString (fst m) @ str '':'' @ JSON_stringify (snd m)) ms) @ 0x7D # rest"
    obtain m ms' where ms: "ms = m # ms'"
      using False by (cases ms) auto
    have start: "\<exists>t'. body = 0x22 # t'"
      using ms by (cases ms') (simp_all add: body_def QuoteJSONString_def)
    have "parse_members body = Some (ms, rest)"
      unfolding body_def using False all ih by (rule parse_members_separate)
    moreover have "JSON_stringify (JObject ms) @ rest = 0x7B # body"
      by (simp add: body_def str_def)
    ultimately show ?thesis
      using start keys
      by (auto simp add: parse_value.simps [of "0x7B # _"] skip_ws_Cons is_ws_def
          object_of_distinct)
  qed
qed

lemma JSON_parse_stringify: "plain v \<Longrightarrow> JSON_parse (JSON_stringify v) = Some v"
  using parse_value_stringify [of v "[]"] skip_ws_stringify [of v "[]"]
  by (simp add: JSON_parse_def skip_ws_def)

lemma well_formed_str_ascii:
  "\<forall>c\<in>set a. unat (of_char c :: code_unit) < 0x80 \<Longrightarrow> well_formed (str a @ t) = well_formed t"
  by (intro well_formed_ascii) (simp add: str_def)

lemma well_formed_separate:
  assumes "\<And>x t. x \<in> set xs \<Longrightarrow> well_formed t \<Longrightarrow> well_formed (f x @ t)"
    and "well_formed t"
  shows "well_formed (separate (str '','') (map f xs) @ t)"
  using assms
proof (induction xs)
  case Nil
  then show ?case by simp
next
  case (Cons x xs)
  show ?case
  proof (cases "xs = []")
    case True
    with Cons.prems show ?thesis by simp
  next
    case False
    have "well_formed (separate (str '','') (map f xs) @ t)"
      using Cons.prems by (intro Cons.IH) simp_all
    then have "well_formed (str '','' @ separate (str '','') (map f xs) @ t)"
      by (subst well_formed_str_ascii) simp_all
    then have "well_formed (f x @ str '','' @ separate (str '','') (map f xs) @ t)"
      using Cons.prems by simp
    then show ?thesis
      using False by (simp add: separate_Cons)
  qed
qed

lemma well_formed_stringify:
  "plain v \<Longrightarrow> well_formed t \<Longrightarrow> well_formed (JSON_stringify v @ t)"
proof (induction v arbitrary: t)
  case JNull
  then show ?case by (simp add: well_formed_str_ascii)
next
  case (JBool b)
  then show ?case by (simp add: well_formed_str_ascii)
next
  case (JNumber l)
  then show ?case by simp
next
  case (JString s)
  then show ?case by (simp add: well_formed_QuoteJSONString)
next
  case (JArray vs)
  from JArray.prems have "well_formed (str '']'' @ t)"
    by (simp add: well_formed_str_ascii)
  then have "well_formed (separate (str '','') (map JSON_stringify vs) @ str '']'' @ t)"
    using JArray.IH JArray.prems(1) by (intro well_formed_separate) (simp_all add: list_all_iff)
  then show ?case
    by (simp add: well_formed_str_ascii)
next
  case (JObject ms)
  have member: "well_formed ((QuoteJSONString (fst m) @ str '':'' @ JSON_stringify (snd m)) @ t')"
    if "m \<in> set ms" and "well_formed t'" for m t'
  proof -
    have "plain (snd m)"
      using that JObject.prems(1) by (simp add: list_all_iff)
    moreover have "snd m \<in> Basic_BNFs.snds m"
      by (cases m) simp
    ultimately have "well_formed (JSON_stringify (snd m) @ t')"
      using JObject.IH that by blast
    then have "well_formed (str '':'' @ JSON_stringify (snd m) @ t')"
      by (simp add: well_formed_str_ascii)
    then show ?thesis
      using well_formed_QuoteJSONString by simp
  qed
  from JObject.prems have "well_formed (str ''}'' @ t)"
    by (simp add: well_formed_str_ascii)
  then have "well_formed (separate (str '','')
      (map (\<lambda>m. QuoteJSONString (fst m) @ str '':'' @ JSON_stringify (snd m)) ms) @ str ''}'' @ t)"
    using member by (intro well_formed_separate) simp_all
  then show ?case
    by (simp add: well_formed_str_ascii)
qed

lemma decode_encode:
  assumes "plain v"
  shows "decodePairingString (Buffer_toString_base64 (Buffer_from_string (JSON_stringify v)))
           = Inr v"
proof -
  have "well_formed (JSON_stringify v)"
    using well_formed_stringify [OF assms, of "[]"] by simp
  then have "Buffer_toString (Buffer_from_string (JSON_stringify v)) = JSON_stringify v"
    by (rule Buffer_toString_from_string)
  then show ?thesis
    using assms by (simp add: decodePairingString_def base64_roundtrip JSON_parse_stringify)
qed

text \<open>
  The value of a metadata object has each property of the record once, whatever the list
  of names that gives the order.
\<close>

lemma map_fst_properties:
  "map fst (List.map_filter (\<lambda>k. map_option (Pair k) (g k)) xs) = filter (\<lambda>k. g k \<noteq> None) xs"
  by (induction xs) (auto simp add: List.map_filter_simps)

lemma map_of_properties:
  "map_of (List.map_filter (\<lambda>k. map_option (Pair k) (g k)) xs) k
     = (if k \<in> set xs then g k else None)"
  by (induction xs) (auto simp add: List.map_filter_simps split: option.splits)

lemma distinct_own_keys: "distinct (own_keys ks)"
  by (auto simp add: own_keys_def metadata_names_def str_def)

lemma own_keys_distinct: "distinct ks \<Longrightarrow> set metadata_names \<subseteq> set ks \<Longrightarrow> own_keys ks = ks"
  by (simp add: own_keys_def filter_empty_conv subset_iff)

lemma metadata_property_names: "k \<notin> set (own_keys ks) \<Longrightarrow> metadata_property m k = None"
  by (auto simp add: metadata_property_def own_keys_def metadata_names_def split: if_splits)

lemma set_properties:
  "(k, v) \<in> set (List.map_filter (\<lambda>k. map_option (Pair k) (g k)) xs) \<Longrightarrow> g k = Some v"
  by (induction xs) (auto simp add: List.map_filter_simps split: option.splits)

lemma metadata_json_properties:
  "\<exists>ps. metadata_json ks m = JObject ps \<and> distinct (map fst ps)
     \<and> (\<forall>k. map_of ps k = metadata_property m k)"
  by (simp add: metadata_json_def map_fst_properties map_of_properties distinct_own_keys
      metadata_property_names)

lemma plain_metadata_property: "metadata_property m k = Some v \<Longrightarrow> plain v"
  by (auto simp add: metadata_property_def split: if_splits)

lemma plain_metadata_json: "plain (metadata_json ks m)"
  by (auto simp add: metadata_json_def map_fst_properties distinct_own_keys list_all_iff
      dest!: set_properties intro: plain_metadata_property)

lemma plain_pairingData_json: "plain (pairingData_json ks p)"
  by (simp add: pairingData_json_def plain_metadata_json str_def)

section \<open>The parser reads at least one character for a value\<close>

text \<open>
  Every function of the parser returns a rest that is shorter than its input, so the
  tests on the lengths in \<open>parse_elements\<close> and \<open>parse_members\<close> never fail.
\<close>

lemma cons_result_SomeD:
  "cons_result x r = Some (ys, rest) \<Longrightarrow> \<exists>xs. r = Some (xs, rest) \<and> ys = x # xs"
  by (auto simp add: cons_result_def split: option.splits)

lemma skip_ws_length: "length (skip_ws s) \<le> length s"
  by (simp add: skip_ws_def length_dropWhile_le)

lemma skip_ws_ConsD: "skip_ws s = c # r \<Longrightarrow> length r < length s"
  using skip_ws_length [of s] by simp

lemma string_body_shorter: "string_body s = Some (t, rest) \<Longrightarrow> length rest < length s"
proof (induction s arbitrary: t rule: string_body.induct)
  case 1
  then show ?case by simp
next
  case (2 c s)
  then show ?case
    by (fastforce simp add: less_Suc_eq split: if_splits list.splits option.splits
        dest!: cons_result_SomeD)
qed

lemma digits1_shorter: "digits1 s = Some (ds, rest) \<Longrightarrow> length rest < length s"
proof -
  assume "digits1 s = Some (ds, rest)"
  then have "takeWhile is_digit s \<noteq> []" and "rest = dropWhile is_digit s"
    by (auto simp add: digits1_def split: if_splits)
  moreover have "length (takeWhile is_digit s) + length (dropWhile is_digit s) = length s"
    by (metis length_append takeWhile_dropWhile_id)
  ultimately show ?thesis
    by (cases "takeWhile is_digit s") auto
qed

lemma number_shorter: "number s = Some (l, rest) \<Longrightarrow> length rest < length s"
proof -
  assume n: "number s = Some (l, rest)"
  define s1 where "s1 = (case s of c # r \<Rightarrow> if c = 0x2D then r else s | [] \<Rightarrow> s)"
  have s1: "length s1 \<le> length s"
    by (simp add: s1_def split: list.splits)
  from n obtain i s2 f s3 e where i: "number_int s1 = Some (i, s2)"
    and f: "number_frac s2 = Some (f, s3)" and e: "number_exp s3 = Some (e, rest)"
    by (auto simp add: number_def s1_def Let_def split: list.splits if_splits option.splits)
  from i have "length s2 < length s1"
    by (auto simp add: number_int_def split: list.splits if_splits dest: digits1_shorter)
  moreover from f have "length s3 \<le> length s2"
    by (auto simp add: number_frac_def split: list.splits if_splits option.splits
        dest!: digits1_shorter)
  moreover from e have "length rest \<le> length s3"
    by (auto simp add: number_exp_def split: list.splits if_splits option.splits
        dest!: digits1_shorter)
  ultimately show ?thesis
    using s1 by simp
qed

lemma literal_shorter: "literal s = Some (v, rest) \<Longrightarrow> length rest < length s"
proof -
  assume l: "literal s = Some (v, rest)"
  have word: "length (drop n s) < length s" if "take n s = w" and "w \<noteq> []" for n w
    using that by (cases s; cases n) auto
  from l show ?thesis
    by (auto simp add: literal_def str_def split: if_splits option.splits
        dest: number_shorter intro!: word)
qed

lemma parse_shorter:
  "\<forall>v rest. parse_value s = Some (v, rest) \<longrightarrow> length rest < length s"
  "\<forall>vs rest. parse_elements s = Some (vs, rest) \<longrightarrow> length rest < length s"
  "\<forall>ms rest. parse_members s = Some (ms, rest) \<longrightarrow> length rest < length s"
proof (induction s and s and s rule: parse_value_parse_elements_parse_members.induct)
  case (1 s)
  show ?case
  proof (intro allI impI)
    fix v rest
    assume p: "parse_value s = Some (v, rest)"
    then obtain c r where s: "s = c # r"
      by (cases s) (simp_all add: parse_value.simps [of "[]"])
    consider "c = 0x22" | "c \<noteq> 0x22" "c = 0x5B" | "c \<noteq> 0x22" "c \<noteq> 0x5B" "c = 0x7B"
      | "c \<noteq> 0x22" "c \<noteq> 0x5B" "c \<noteq> 0x7B"
      by blast
    then show "length rest < length s"
    proof cases
      case 1
      with p s obtain t where "string_body r = Some (t, rest)"
        by (auto simp add: parse_value.simps [of "_ # _"] split: option.splits)
      then show ?thesis
        using s by (auto dest: string_body_shorter)
    next
      case 2
      with p s obtain d r' where ws: "skip_ws r = d # r'"
        by (cases "skip_ws r") (simp_all add: parse_value.simps [of "_ # _"])
      show ?thesis
      proof (cases "d = 0x5D")
        case True
        with p s 2 ws have "rest = r'"
          by (simp add: parse_value.simps [of "_ # _"])
        then show ?thesis
          using s skip_ws_ConsD [OF ws] by simp
      next
        case False
        with p s 2 ws obtain vs where "parse_elements r = Some (vs, rest)"
          by (auto simp add: parse_value.simps [of "_ # _"] split: option.splits)
        moreover have "\<forall>vs rest. parse_elements r = Some (vs, rest) \<longrightarrow> length rest < length r"
          using "1.IH"(1) [OF s 2 ws False] .
        ultimately show ?thesis
          using s by auto
      qed
    next
      case 3
      with p s obtain d r' where ws: "skip_ws r = d # r'"
        by (cases "skip_ws r") (simp_all add: parse_value.simps [of "_ # _"])
      show ?thesis
      proof (cases "d = 0x7D")
        case True
        with p s 3 ws have "rest = r'"
          by (simp add: parse_value.simps [of "_ # _"])
        then show ?thesis
          using s skip_ws_ConsD [OF ws] by simp
      next
        case False
        with p s 3 ws obtain ms where "parse_members r = Some (ms, rest)"
          by (auto simp add: parse_value.simps [of "_ # _"] split: option.splits)
        moreover have "\<forall>ms rest. parse_members r = Some (ms, rest) \<longrightarrow> length rest < length r"
          using "1.IH"(2) [OF s 3 ws False] .
        ultimately show ?thesis
          using s by auto
      qed
    next
      case 4
      with p s have "literal s = Some (v, rest)"
        by (simp add: parse_value.simps [of "_ # _"])
      then show ?thesis
        by (rule literal_shorter)
    qed
  qed
next
  case (2 s)
  show ?case
  proof (intro allI impI)
    fix vs rest
    assume p: "parse_elements s = Some (vs, rest)"
    then obtain v r where v: "parse_value (skip_ws s) = Some (v, r)"
      by (cases "parse_value (skip_ws s)") (auto simp add: parse_elements.simps [of s])
    with "2.IH"(1) have "length r < length (skip_ws s)"
      by blast
    then have r: "length r < length s"
      using skip_ws_length [of s] by simp
    from p v obtain d r' where ws: "skip_ws r = d # r'"
      by (cases "skip_ws r") (simp_all add: parse_elements.simps [of s])
    have r': "length r' < length s"
      using skip_ws_ConsD [OF ws] r by simp
    show "length rest < length s"
    proof (cases "d = 0x5D")
      case True
      with p v ws have "rest = r'"
        by (simp add: parse_elements.simps [of s])
      with r' show ?thesis by simp
    next
      case False
      with p v ws have comma: "d = 0x2C \<and> length r' < length s"
        and more: "cons_result v (parse_elements r') = Some (vs, rest)"
        by (simp_all add: parse_elements.simps [of s] split: if_splits)
      from more obtain xs where "parse_elements r' = Some (xs, rest)"
        by (auto dest: cons_result_SomeD)
      moreover have "\<forall>vs rest. parse_elements r' = Some (vs, rest) \<longrightarrow> length rest < length r'"
        using "2.IH"(2) [OF v refl ws False comma] .
      ultimately show ?thesis
        using r' by fastforce
    qed
  qed
next
  case (3 s)
  show ?case
  proof (intro allI impI)
    fix ms rest
    assume p: "parse_members s = Some (ms, rest)"
    then obtain q r where s: "skip_ws s = q # r"
      by (cases "skip_ws s") (simp_all add: parse_members.simps [of s])
    with p have q: "q = 0x22"
      by (simp add: parse_members.simps [of s] split: if_splits)
    from p s q obtain k r1 where k: "string_body r = Some (k, r1)"
      by (cases "string_body r") (auto simp add: parse_members.simps [of s])
    from p s q k obtain c r2 where ws1: "skip_ws r1 = c # r2"
      by (cases "skip_ws r1") (simp_all add: parse_members.simps [of s])
    with p s q k have colon: "c = 0x3A \<and> length r2 < length s"
      by (simp add: parse_members.simps [of s] split: if_splits)
    with p s q k ws1 obtain v r3 where v: "parse_value (skip_ws r2) = Some (v, r3)"
      by (cases "parse_value (skip_ws r2)") (auto simp add: parse_members.simps [of s])
    have "\<forall>v rest. parse_value (skip_ws r2) = Some (v, rest) \<longrightarrow> length rest < length (skip_ws r2)"
      using "3.IH"(1) [OF s q k refl ws1 colon] .
    with v have "length r3 < length (skip_ws r2)"
      by blast
    then have r3: "length r3 < length s"
      using skip_ws_length [of r2] colon by simp
    from p s q k ws1 colon v obtain d r4 where ws3: "skip_ws r3 = d # r4"
      by (cases "skip_ws r3") (simp_all add: parse_members.simps [of s])
    have r4: "length r4 < length s"
      using skip_ws_ConsD [OF ws3] r3 by simp
    show "length rest < length s"
    proof (cases "d = 0x7D")
      case True
      with p s q k ws1 colon v ws3 have "rest = r4"
        by (simp add: parse_members.simps [of s])
      with r4 show ?thesis by simp
    next
      case False
      with p s q k ws1 colon v ws3 have comma: "d = 0x2C \<and> length r4 < length s"
        and more: "cons_result (k, v) (parse_members r4) = Some (ms, rest)"
        by (simp_all add: parse_members.simps [of s] split: if_splits)
      from more obtain xs where "parse_members r4 = Some (xs, rest)"
        by (auto dest: cons_result_SomeD)
      moreover have "\<forall>ms rest. parse_members r4 = Some (ms, rest) \<longrightarrow> length rest < length r4"
        using "3.IH"(2) [OF s q k refl ws1 colon v refl ws3 False comma] .
      ultimately show ?thesis
        using r4 by fastforce
    qed
  qed
qed

text \<open>The two functions without the tests on the lengths: the grammar as it is.\<close>

lemma parse_elements_unguarded:
  "parse_elements s =
     (case parse_value (skip_ws s) of
        None \<Rightarrow> None
      | Some (v, r) \<Rightarrow>
          (case skip_ws r of
             [] \<Rightarrow> None
           | d # r' \<Rightarrow>
               if d = 0x5D then Some ([v], r')
               else if d = 0x2C then cons_result v (parse_elements r')
               else None))"
proof (cases "parse_value (skip_ws s)")
  case None
  then show ?thesis
    by (simp add: parse_elements.simps [of s])
next
  case (Some p)
  obtain v r where p: "p = (v, r)"
    by (cases p)
  with Some parse_shorter(1) [of "skip_ws s"] have "length r < length (skip_ws s)"
    by blast
  then have r: "length r < length s"
    using skip_ws_length [of s] by simp
  show ?thesis
  proof (cases "skip_ws r")
    case Nil
    with Some p show ?thesis
      by (simp add: parse_elements.simps [of s])
  next
    case (Cons d r')
    then have "length r' < length s"
      using skip_ws_ConsD [of r d r'] r by simp
    with Some p Cons show ?thesis
      by (simp add: parse_elements.simps [of s])
  qed
qed

lemma parse_members_unguarded:
  "parse_members s =
     (case skip_ws s of
        [] \<Rightarrow> None
      | q # r \<Rightarrow>
          if q = 0x22 then
            (case string_body r of
               None \<Rightarrow> None
             | Some (k, r1) \<Rightarrow>
                 (case skip_ws r1 of
                    [] \<Rightarrow> None
                  | c # r2 \<Rightarrow>
                      if c = 0x3A then
                        (case parse_value (skip_ws r2) of
                           None \<Rightarrow> None
                         | Some (v, r3) \<Rightarrow>
                             (case skip_ws r3 of
                                [] \<Rightarrow> None
                              | d # r4 \<Rightarrow>
                                  if d = 0x7D then Some ([(k, v)], r4)
                                  else if d = 0x2C then cons_result (k, v) (parse_members r4)
                                  else None))
                      else None))
          else None)"
proof -
  have colon: "length r2 < length s"
    if "skip_ws s = q # r" and "string_body r = Some (k, r1)" and "skip_ws r1 = c # r2"
    for q r k r1 c r2
    using skip_ws_ConsD [OF that(1)] string_body_shorter [OF that(2)] skip_ws_ConsD [OF that(3)]
    by simp
  have comma: "length r4 < length s"
    if "length r2 < length s" and "parse_value (skip_ws r2) = Some (v, r3)"
      and "skip_ws r3 = d # r4"
    for r2 v r3 d r4
  proof -
    from that(2) parse_shorter(1) [of "skip_ws r2"] have "length r3 < length (skip_ws r2)"
      by blast
    then show ?thesis
      using skip_ws_length [of r2] skip_ws_ConsD [OF that(3)] that(1) by simp
  qed
  show ?thesis
    by (subst parse_members.simps)
      (auto simp add: colon comma split: list.splits option.splits dest: colon)
qed

section \<open>The platform functions on examples\<close>

lemmas buffer_eval = str_def base64_char_def unbase64_def low_byte_def base64_sextets_def
  Buffer_from_base64_def List.map_filter_def utf8_bytes_def utf8_first_def utf16_units_def code_point_def is_lead_def
  is_trail_def Buffer_toString_def Let_def

lemmas json_eval = str_def JSON_parse_def parse_value.simps parse_elements.simps parse_members.simps
  skip_ws_def is_ws_def literal_def number_def number_int_def number_frac_def number_exp_def
  digits1_def is_digit_def hex4_def hex_value_def escaped_def cons_result_def object_of_def
  QuoteJSONString_def quote_unit_def unicode_escape_def hex_digit_def is_lead_def is_trail_def
  Let_def

text \<open>
  Base64 with and without padding, UTF-8 of a character outside the basic plane and of a
  surrogate without its partner, and the decoding of ill-formed bytes.
\<close>

lemma Buffer_examples:
  "Buffer_toString_base64 (Buffer_from_string (str ''{}'')) = str ''e30=''"
  "Buffer_toString (Buffer_from_base64 (str ''aGVsbG8gd29ybGQ'')) = str ''hello world''"
  "Buffer_from_string [0xD83D, 0xDE00, 0xE9, 0x20AC] = [0xF0, 0x9F, 0x98, 0x80, 0xC3, 0xA9, 0xE2, 0x82, 0xAC]"
  "Buffer_from_string [0xD83D, 0x41] = [0xEF, 0xBF, 0xBD, 0x41]"
  "Buffer_toString [0xF0, 0x9F, 0x98, 0x80, 0xC3, 0xA9, 0xE2, 0x82, 0xAC] = [0xD83D, 0xDE00, 0xE9, 0x20AC]"
  "Buffer_toString [0xE2, 0x82, 0x41, 0xFF, 0xC0, 0x80] = [0xFFFD, 0x41, 0xFFFD, 0xFFFD, 0xFFFD]"
  by (simp_all add: buffer_eval)

text \<open>
  White space, numerals, a property named twice and escapes are read as \<open>JSON.parse\<close>
  reads them; a comma before \<open>]\<close>, a leading zero, a name without quotes and text after
  the value are syntax errors.
\<close>

lemma JSON_parse_examples:
  "JSON_parse (str '' [1, -2.5e+3 ,true,null , []] '')
     = Some (JArray [JNumber (str ''1''), JNumber (str ''-2.5e+3''), JBool True, JNull, JArray []])"
  "JSON_parse (str ''{'' @ QuoteJSONString (str ''a'') @ str '':1, '' @ QuoteJSONString (str ''b'')
       @ str '' : {},'' @ QuoteJSONString (str ''a'') @ str '':false}'')
     = Some (JObject [(str ''a'', JBool False), (str ''b'', JObject [])])"
  "JSON_parse (0x22 # str ''a'' @ [0x5C] @ str ''u00e9'' @ [0x5C] @ str ''n'' @ [0x22])
     = Some (JString [0x61, 0xE9, 0x0A])"
  "JSON_parse (str ''[1,]'') = None"
  "JSON_parse (str ''01'') = None"
  "JSON_parse (str ''{a:1}'') = None"
  "JSON_parse (str ''truex'') = None"
  "JSON_parse [] = None"
  by (simp_all add: json_eval)

section \<open>Properties of the pairing codec\<close>

text \<open>
  C5, as stated, fails: a pairing data record need not have a \<open>url\<close>. For the record
  \<open>nourl_pairingData\<close>, whose \<open>name\<close>, \<open>description\<close> and \<open>network\<close> are strings of the safe
  alphabet and which has no \<open>url\<close>, on a session whose metadata is that of the record,
  \<open>generatePairingString\<close> throws a \<open>TypeError\<close>: there is no pairing string to decode.
\<close>

theorem generatePairingString_without_url:
  "this_metadata nourl_world = Some 0
   \<and> metadata_store nourl_world 0 = pd_metadata nourl_pairingData
   \<and> url (pd_metadata nourl_pairingData) = None
   \<and> list_all safe_alphabet (name (pd_metadata nourl_pairingData))
   \<and> list_all safe_alphabet (description (pd_metadata nourl_pairingData))
   \<and> list_all safe_alphabet (pd_network nourl_pairingData)
   \<and> fst (generatePairingString
         \<lparr>cs_topic = pd_topic nourl_pairingData, cs_expires = 0\<rparr>
         (pd_network nourl_pairingData) (pd_multiAccount nourl_pairingData) nourl_world)
       = Inl TypeError"
  by (simp add: generatePairingString_def nourl_world_def nourl_pairingData_def constructor_def
      assign_metadata_def update_metadata_def Let_def str_def safe_alphabet_def word_char_def)

text \<open>
  C5, amended. For pairing data \<open>p\<close> that has a \<open>url\<close> and whose \<open>name\<close>, \<open>description\<close>,
  \<open>url\<close> and \<open>network\<close> are strings of the safe alphabet, on a session whose metadata is
  that of \<open>p\<close>: \<open>generatePairingString\<close> for the topic, the network and the flag of \<open>p\<close>
  returns a string, and \<open>decodePairingString\<close> of that string returns \<open>p\<close>, as the value
  that \<open>JSON.parse\<close> builds for it, the properties of the metadata in the order that they
  have in the session's object.
\<close>

theorem pairing_string_roundtrip:
  assumes "this_metadata w = Some r" and "metadata_store w r = pd_metadata p"
    and "cs_topic state = pd_topic p"
    and "url (pd_metadata p) = Some u" and "list_all safe_alphabet u"
    and "list_all safe_alphabet (name (pd_metadata p))"
    and "list_all safe_alphabet (description (pd_metadata p))"
    and "list_all safe_alphabet (pd_network p)"
  shows "\<exists>pairingString.
      fst (generatePairingString state (pd_network p) (pd_multiAccount p) w) = Inr pairingString
      \<and> decodePairingString pairingString
          = Inr (pairingData_json
              (metadata_keys (snd (generatePairingString state (pd_network p) (pd_multiAccount p) w)) r)
              p)"
proof -
  have same: "sanitizeString s = s" if "list_all safe_alphabet s" for s
    using that by (intro sanitizeString_safe) (simp add: list_all_iff regex_match_safe)
  have "(pd_metadata p)\<lparr>url := Some u\<rparr> = pd_metadata p"
    using assms(4) by (cases "pd_metadata p") simp
  then have data: "\<lparr>pd_metadata = (pd_metadata p)\<lparr>url := Some u\<rparr>, pd_topic = pd_topic p,
      pd_network = pd_network p, pd_multiAccount = pd_multiAccount p\<rparr> = p"
    by simp
  define ks where
    "ks = metadata_keys (snd (generatePairingString state (pd_network p) (pd_multiAccount p) w)) r"
  have "fst (generatePairingString state (pd_network p) (pd_multiAccount p) w)
      = Inr (Buffer_toString_base64 (Buffer_from_string (JSON_stringify (pairingData_json ks p))))"
    using assms
    by (simp add: ks_def generatePairingString_def assign_metadata_def update_metadata_def Let_def
        same data)
  then show ?thesis
    unfolding ks_def [symmetric] by (simp add: decode_encode plain_pairingData_json)
qed

theorem pairing_string_roundtrip_witness:
  "this_metadata safe_world = Some 0
   \<and> metadata_store safe_world 0 = pd_metadata safe_pairingData
   \<and> url (pd_metadata safe_pairingData) = Some (str ''dapp.example'')
   \<and> list_all safe_alphabet (str ''dapp.example'')
   \<and> list_all safe_alphabet (name (pd_metadata safe_pairingData))
   \<and> list_all safe_alphabet (description (pd_metadata safe_pairingData))
   \<and> list_all safe_alphabet (pd_network safe_pairingData)
   \<and> (\<exists>pairingString.
        fst (generatePairingString \<lparr>cs_topic = str ''t1'', cs_expires = 0\<rparr> (str ''testnet'') False
          safe_world) = Inr pairingString
        \<and> decodePairingString pairingString
            = Inr (pairingData_json (map str [''name'', ''description'', ''icon'', ''publicKey'', ''url''])
                safe_pairingData))"
proof -
  have a: "this_metadata safe_world = Some 0"
    and b: "metadata_store safe_world 0 = pd_metadata safe_pairingData"
    by (simp_all add: safe_world_def constructor_def)
  have c: "cs_topic \<lparr>cs_topic = str ''t1'', cs_expires = 0\<rparr> = pd_topic safe_pairingData"
    and d: "url (pd_metadata safe_pairingData) = Some (str ''dapp.example'')"
    and n: "pd_network safe_pairingData = str ''testnet''"
    and m: "pd_multiAccount safe_pairingData = False"
    by (simp_all add: safe_pairingData_def)
  have e: "list_all safe_alphabet (str ''dapp.example'')"
    and f: "list_all safe_alphabet (name (pd_metadata safe_pairingData))"
    and g: "list_all safe_alphabet (description (pd_metadata safe_pairingData))"
    and h: "list_all safe_alphabet (pd_network safe_pairingData)"
    by (simp_all add: safe_pairingData_def str_def safe_alphabet_def word_char_def)
  have k: "metadata_keys (snd (generatePairingString \<lparr>cs_topic = str ''t1'', cs_expires = 0\<rparr>
      (str ''testnet'') False safe_world)) 0
      = map str [''name'', ''description'', ''icon'', ''publicKey'', ''url'']"
    by (simp add: generatePairingString_def safe_world_def safe_pairingData_def constructor_def
        assign_metadata_def assign_key_def update_metadata_def Let_def str_def)
  show ?thesis
    using pairing_string_roundtrip [OF a b c d e f g h] a b d e f g h
    by (simp add: n m k)
qed

text \<open>
  The pairing string of that session: the metadata is written with \<open>publicKey\<close> before
  \<open>url\<close>, the order in which \<open>init\<close> creates the two on an object that has neither.
\<close>

lemma generatePairingString_example:
  "fst (generatePairingString \<lparr>cs_topic = str ''t1'', cs_expires = 0\<rparr> (str ''testnet'') False
     safe_world)
   = Inr (str (''eyJtZXRhZGF0YSI6eyJuYW1lIjoiTXkgZEFwcCIsImRlc2NyaXB0aW9uIjoiQSBkZW1vIiwiaWNvbiI6''
       @ ''Imljb24ucG5nIiwicHVibGljS2V5IjoiQndjSCIsInVybCI6ImRhcHAuZXhhbXBsZSJ9LCJ0b3BpYyI6InQx''
       @ ''IiwibmV0d29yayI6InRlc3RuZXQiLCJtdWx0aUFjY291bnQiOmZhbHNlfQ==''))"
  by code_simp


text \<open>
  The base64 text is not validated either: characters outside the alphabet are skipped, a
  code unit above \<open>0xFF\<close> is read by its low byte, and the padding is not required.
\<close>

lemma decodePairingString_lenient_base64:
  "decodePairingString (str ''e 3*0'') = Inr (JObject [])"
  "decodePairingString [0x0165, 0x33, 0x30, 0x3D] = Inr (JObject [])"
  "decodePairingString ([0x65, 0x0170] @ str ''30'') = Inl SyntaxError"
  by code_simp+





text \<open>
  The sanitized text is written back to the metadata object of the session, so each call
  of \<open>generatePairingString\<close> sanitizes what the call before it left there.
\<close>

lemma generatePairingString_sanitizes_in_place:
  assumes "this_metadata w = Some r" and "url (metadata_store w r) = Some u"
  shows "metadata_store (snd (generatePairingString state network multiAccount w)) r
     = (metadata_store w r)\<lparr>description := sanitizeString (description (metadata_store w r)),
          name := sanitizeString (name (metadata_store w r)),
          url := Some (sanitizeString u)\<rparr>"
  using assms
  by (simp add: generatePairingString_def assign_metadata_def update_metadata_def Let_def)

end
